theory Spec2Isabelle
  imports Complex_Main
begin

section \<open>Numbers, optional fields and calendar dates\<close>

text \<open>
  The engine of \<^verbatim>\<open>src/utils.ts\<close> computes with JavaScript numbers and \<^verbatim>\<open>Date\<close>
  objects. A \<^verbatim>\<open>number\<close> that carries money, a rate or hours is a double, kept here as the
  real number it stands for (\<^typ>\<open>real\<close>). In \<^verbatim>\<open>getMonthlyRevenue\<close> and in the project
  inflows of both cash-flow paths (the amounts, their accumulation into \<^verbatim>\<open>cashIn\<close> and the
  tax markup) every product, quotient, sum and difference is rounded to a double as the
  program rounds it (\<open>toDouble\<close> below), \<^verbatim>\<open>Math.floor\<close> is \<^term>\<open>floor\<close> and the literal
  \<^verbatim>\<open>1.1\<close> is the double next to \<open>11 / 10\<close>. The other totals (over the projects, the
  ledger items, the days and the months) add whole numbers, namely floored amounts and
  amounts typed as digits, which doubles add exactly as long as the total stays below
  \<open>2 ^ 53\<close>: they are exact sums here. The cost engine is in exact arithmetic as well; the
  properties proved of it are about which entries contribute. A number that only ever
  feeds a calendar field (year, month, day, delay in months, pay day) is an \<^typ>\<open>int\<close>.

  A date string \<^verbatim>\<open>"YYYY-MM-DD"\<close> is kept as the three numbers that
  \<^verbatim>\<open>dateStr.split('-').map(Number)\<close> reads from it, and the empty string (the only date
  string that is falsy) is \<^term>\<open>None\<close>. A month string \<^verbatim>\<open>"YYYY-MM"\<close> is a pair in the
  same way, and the key \<^verbatim>\<open>`${year}-${String(month + 1).padStart(2, '0')}`\<close> of the sparse
  tables is the pair of the year and the month number \<^verbatim>\<open>month + 1\<close>.
\<close>

type_synonym dateStr = "(int \<times> int \<times> int) option"
type_synonym monthStr = "(int \<times> int) option"
type_synonym monthKey = "int \<times> int"

text \<open>
  \<^verbatim>\<open>x || d\<close> on an optional number: the default is taken when the field is missing and
  also when it is \<^verbatim>\<open>0\<close>.
\<close>

definition orElse :: "'a::zero option \<Rightarrow> 'a \<Rightarrow> 'a" where
  "orElse x d = (case x of None \<Rightarrow> d | Some v \<Rightarrow> if v = 0 then d else v)"

text \<open>
  \<^verbatim>\<open>a % n\<close> takes the sign of the dividend: it is \<^verbatim>\<open>a - n * trunc(a / n)\<close>.
\<close>

definition jsTrunc :: "real \<Rightarrow> int" where
  "jsTrunc x = (if 0 \<le> x then \<lfloor>x\<rfloor> else \<lceil>x\<rceil>)"

definition jsRem :: "real \<Rightarrow> real \<Rightarrow> real" where
  "jsRem a n = a - n * of_int (jsTrunc (a / n))"

text \<open>
  Rounding to a double: round to nearest, ties to even, with 53 significant bits.
  \<open>pow2 k\<close> is \<open>2\<close> to the power \<open>k\<close>; \<open>binade x\<close> is the exponent \<open>e\<close> of \<open>x\<close>, the
  largest one from -1022 to 1023 with \<open>pow2 e \<le> \<bar>x\<bar>\<close>, and -1022 for the subnormal
  numbers below; \<open>ulp x\<close> is the distance \<open>pow2 (e - 52)\<close> between neighbouring doubles
  there, and \<open>toDouble x\<close> is the multiple of \<open>ulp x\<close> next to \<open>x\<close>. (Overflow to
  \<^verbatim>\<open>Infinity\<close> from \<open>2 ^ 1024\<close> on, \<^verbatim>\<open>NaN\<close> and the sign of zero are left out.) The
  remainder \<^verbatim>\<open>%\<close> of two doubles is a double: \<open>jsRem\<close> needs no rounding.
\<close>

definition pow2 :: "int \<Rightarrow> real" where
  "pow2 k = (if 0 \<le> k then 2 ^ nat k else 1 / 2 ^ nat (- k))"

fun findBinade :: "nat \<Rightarrow> real \<Rightarrow> int" where
  "findBinade 0 x = - 1022"
| "findBinade (Suc n) x =
     (if pow2 (int (Suc n) - 1022) \<le> \<bar>x\<bar> then int (Suc n) - 1022 else findBinade n x)"

definition binade :: "real \<Rightarrow> int" where
  "binade x = findBinade 2045 x"

definition ulp :: "real \<Rightarrow> real" where
  "ulp x = pow2 (binade x - 52)"

definition roundEven :: "real \<Rightarrow> int" where
  "roundEven y =
     (let f = \<lfloor>y\<rfloor>; d = y - of_int f
      in if d < 1 / 2 then f else if 1 / 2 < d then f + 1 else if even f then f else f + 1)"

definition toDouble :: "real \<Rightarrow> real" where
  "toDouble x = (if x = 0 then 0 else ulp x * of_int (roundEven (x / ulp x)))"

text \<open>
  \<^verbatim>\<open>acc += v\<close>: the rounded sum. Both operands are doubles, and a double plus 0 is that
  double.
\<close>

definition plusAssign :: "real \<Rightarrow> real \<Rightarrow> real" where
  "plusAssign acc v = (if acc = 0 then v else if v = 0 then acc else toDouble (acc + v))"

text \<open>
  A \<^verbatim>\<open>Date\<close> in local time: its calendar fields as the getters return them (the month is
  0-based) and the milliseconds since local midnight, which only \<^verbatim>\<open>new Date()\<close> makes
  nonzero. Comparing two dates compares their time values, that is, the fields in
  lexicographic order.
\<close>

record jsDate =
  getFullYear :: int
  getMonth :: int
  getDate :: int
  getMillis :: nat

definition dateLt :: "jsDate \<Rightarrow> jsDate \<Rightarrow> bool" where
  "dateLt a b =
     (getFullYear a < getFullYear b \<or>
      (getFullYear a = getFullYear b \<and>
       (getMonth a < getMonth b \<or>
        (getMonth a = getMonth b \<and>
         (getDate a < getDate b \<or>
          (getDate a = getDate b \<and> getMillis a < getMillis b))))))"

definition dateLe :: "jsDate \<Rightarrow> jsDate \<Rightarrow> bool" where
  "dateLe a b = (\<not> dateLt b a)"

definition leapYear :: "int \<Rightarrow> bool" where
  "leapYear y = (y mod 4 = 0 \<and> (y mod 100 \<noteq> 0 \<or> y mod 400 = 0))"

definition daysInMonth :: "int \<Rightarrow> int \<Rightarrow> int" where
  "daysInMonth y m =
     (if m = 1 then (if leapYear y then 29 else 28)
      else if m = 3 \<or> m = 5 \<or> m = 8 \<or> m = 10 then 30 else 31)"

text \<open>
  Months are counted from year 0: month \<open>k\<close> is month \<open>k mod 12\<close> of year \<open>k div 12\<close>.
\<close>

definition daysOfIndex :: "int \<Rightarrow> int" where
  "daysOfIndex k = daysInMonth (k div 12) (k mod 12)"

text \<open>
  \<^verbatim>\<open>new Date(year, month, day)\<close> accepts a month outside 0..11 and a day outside the
  month and carries them over: it is day 1 of the month \<open>year * 12 + month\<close> moved by
  \<open>day - 1\<close> days. \<open>normaliseDay\<close> walks month by month to the month that holds the day.
  (The constructor's remapping of the years 0..99 to 1900..1999 and the bounded range of
  time values are left out: the model is the proleptic Gregorian calendar.)
\<close>

function normaliseDay :: "int \<Rightarrow> int \<Rightarrow> int \<times> int" where
  "normaliseDay k d =
     (if d < 1 then normaliseDay (k - 1) (d + daysOfIndex (k - 1))
      else if daysOfIndex k < d then normaliseDay (k + 1) (d - daysOfIndex k)
      else (k, d))"
  by pat_completeness auto
termination
proof (relation "measure (\<lambda>(k, d). if d < 1 then nat (1 - d) + 32 else nat d)")
  show "wf (measure (\<lambda>(k, d). if d < 1 then nat (1 - d) + 32 else nat d))"
    by simp
next
  fix k d :: int
  assume "d < 1"
  moreover have "28 \<le> daysOfIndex (k - 1)" "daysOfIndex (k - 1) \<le> 31"
    by (simp_all add: daysOfIndex_def daysInMonth_def)
  ultimately show "((k - 1, d + daysOfIndex (k - 1)), (k, d))
      \<in> measure (\<lambda>(k, d). if d < 1 then nat (1 - d) + 32 else nat d)"
    by auto
next
  fix k d :: int
  assume "\<not> d < 1" "daysOfIndex k < d"
  moreover have "28 \<le> daysOfIndex k"
    by (simp add: daysOfIndex_def daysInMonth_def)
  ultimately show "((k + 1, d - daysOfIndex k), (k, d))
      \<in> measure (\<lambda>(k, d). if d < 1 then nat (1 - d) + 32 else nat d)"
    by auto
qed

declare normaliseDay.simps [simp del]

definition mkDate :: "int \<Rightarrow> int \<Rightarrow> int \<Rightarrow> jsDate" where
  "mkDate year month day =
     (case normaliseDay (year * 12 + month) day of
        (k, d) \<Rightarrow> \<lparr>getFullYear = k div 12, getMonth = k mod 12, getDate = d, getMillis = 0\<rparr>)"

text \<open>\<^verbatim>\<open>date.setDate(day)\<close>: the day of the month is replaced and carried over, the time kept.\<close>

definition setDate :: "jsDate \<Rightarrow> int \<Rightarrow> jsDate" where
  "setDate t day = (mkDate (getFullYear t) (getMonth t) day)\<lparr>getMillis := getMillis t\<rparr>"

text \<open>
  \<^verbatim>\<open>parseLocalDate\<close>: the empty string gives \<^verbatim>\<open>new Date()\<close>, the clock, which is the
  parameter \<open>now\<close>.
\<close>

definition parseYMD :: "int \<times> int \<times> int \<Rightarrow> jsDate" where
  "parseYMD s = (case s of (y, m, d) \<Rightarrow> mkDate y (m - 1) d)"

definition parseLocalDate :: "jsDate \<Rightarrow> dateStr \<Rightarrow> jsDate" where
  "parseLocalDate now dateStr = (case dateStr of None \<Rightarrow> now | Some s \<Rightarrow> parseYMD s)"

definition monthIndex :: "jsDate \<Rightarrow> int" where
  "monthIndex t = getFullYear t * 12 + getMonth t"


section \<open>The data model\<close>

text \<open>
  The entity shapes of \<^verbatim>\<open>types.ts\<close> that the engine reads. Display-only fields (names,
  client, project type, lead source, tasks) are left out; an optional field is an
  \<^typ>\<open>'a option\<close>, except an optional boolean, whose missing value is falsy.
\<close>

datatype ProjectStatus = PreOrder | Ordered | Delivered | Lost

datatype RevenueRecognitionMethod = Duration | Milestone

datatype CashFlowCategory =
  OperatingExpense | Tax | LoanRepayment | LoanIn | Investment | Other

record CashFlowItem =
  category :: CashFlowCategory
  amount :: real
  isRecurring :: bool
  periodStart :: monthStr
  periodEnd :: monthStr
  payDay :: "int option"
  paymentDate :: dateStr
  targetMonth :: monthStr

record MonthlyEmployeeData =
  md_cost :: real
  md_monthlyHours :: real

record Employee =
  emp_id :: string
  defaultMonthlyCost :: real
  defaultMonthlyHours :: real
  monthlyData :: "monthKey \<rightharpoonup> MonthlyEmployeeData"

record Assignment =
  employeeId :: string
  utilizationRate :: real

record WorkLog =
  projectId :: string
  log_employeeId :: string
  weekStartDate :: dateStr
  actualHours :: real

record BillingConfig =
  flowSplit :: bool
  flowStartRatio :: "real option"
  flowStartDelay :: "int option"
  flowStartPayDay :: "int option"
  flowEndDelay :: "int option"
  flowEndPayDay :: "int option"
  stockDelay :: "int option"
  stockPayDay :: "int option"

record Project =
  proj_id :: string
  status :: ProjectStatus
  useFlow :: bool
  useStock :: bool
  useTimeCharge :: bool
  revenueMethod :: "RevenueRecognitionMethod option"
  flowAmount :: real
  flowStartDate :: dateStr
  flowEndDate :: dateStr
  stockAmount :: real
  stockStartDate :: dateStr
  timeChargePrices :: "(monthKey \<rightharpoonup> real) option"
  billingConfig :: BillingConfig
  assignments :: "Assignment list"
  isArchived :: bool

record AppSettings =
  salesTargets :: "monthKey \<rightharpoonup> real"
  monthlySalesTarget :: "real option"
  initialCashBalance :: real
  cashFlowItems :: "CashFlowItem list"

section \<open>Cost engine\<close>

text \<open>\<^verbatim>\<open>employees.find(e => e.id === id)\<close>: the first employee with the id, if any.\<close>

definition findEmployee :: "Employee list \<Rightarrow> string \<Rightarrow> Employee option" where
  "findEmployee employees i = find (\<lambda>e. emp_id e = i) employees"

text \<open>
  \<^verbatim>\<open>getEmployeeMonthlyData\<close>: the override of the month if there is one, else the
  defaults. The result is the pair \<open>(cost, monthlyHours)\<close>.
\<close>

definition getEmployeeMonthlyData :: "Employee \<Rightarrow> int \<Rightarrow> int \<Rightarrow> real \<times> real" where
  "getEmployeeMonthlyData employee year month =
     (case monthlyData employee (year, month + 1) of
        None \<Rightarrow> (defaultMonthlyCost employee, defaultMonthlyHours employee)
      | Some data \<Rightarrow> (md_cost data, md_monthlyHours data))"

text \<open>
  The body of \<^verbatim>\<open>project.assignments.forEach\<close> in \<^verbatim>\<open>getProjectMonthlyCost\<close>: one step
  of the accumulation into \<^verbatim>\<open>cost\<close>.
\<close>

definition addAssignment :: "Employee list \<Rightarrow> int \<Rightarrow> int \<Rightarrow> real \<Rightarrow> Assignment \<Rightarrow> real" where
  "addAssignment employees year month cost assign =
     (case findEmployee employees (employeeId assign) of
        None \<Rightarrow> cost
      | Some emp \<Rightarrow>
          cost + fst (getEmployeeMonthlyData emp year month) * (utilizationRate assign / 100))"

definition getProjectMonthlyCost :: "Project \<Rightarrow> Employee list \<Rightarrow> int \<Rightarrow> int \<Rightarrow> real" where
  "getProjectMonthlyCost project employees year month =
     (let mStart = mkDate year month 1;
          mEnd = mkDate year (month + 1) 0;
          planned = real_of_int
            \<lfloor>foldl (addAssignment employees year month) 0 (assignments project)\<rfloor>
      in
      if useFlow project \<and> flowStartDate project \<noteq> None \<and> flowEndDate project \<noteq> None then
        (case (flowStartDate project, flowEndDate project) of
           (Some fs, Some fe) \<Rightarrow>
             if dateLt mEnd (parseYMD fs) \<or> dateLt (parseYMD fe) mStart then 0 else planned
         | _ \<Rightarrow> planned)
      else if \<not> useFlow project \<and> useStock project \<and> stockStartDate project \<noteq> None then
        (case stockStartDate project of
           Some ss \<Rightarrow> if dateLt mEnd (parseYMD ss) then 0 else planned
         | None \<Rightarrow> planned)
      else if \<not> useFlow project \<and> \<not> useStock project \<and> \<not> useTimeCharge project then 0
      else planned)"

text \<open>
  \<^verbatim>\<open>getProjectActualCost\<close>. A work log with an empty \<^verbatim>\<open>weekStartDate\<close> is dated by
  the clock, so the clock \<open>now\<close> is a parameter.
\<close>

definition addWorkLog :: "Employee list \<Rightarrow> int \<Rightarrow> int \<Rightarrow> real \<Rightarrow> WorkLog \<Rightarrow> real" where
  "addWorkLog employees year month cost wl =
     (case findEmployee employees (log_employeeId wl) of
        None \<Rightarrow> cost
      | Some emp \<Rightarrow>
          (case getEmployeeMonthlyData emp year month of
             (empCost, monthlyHours) \<Rightarrow>
               (let hourlyRate = (if 0 < monthlyHours then empCost / monthlyHours else 0)
                in cost + actualHours wl * hourlyRate)))"

definition targetLog :: "jsDate \<Rightarrow> Project \<Rightarrow> int \<Rightarrow> int \<Rightarrow> WorkLog \<Rightarrow> bool" where
  "targetLog now project year month l =
     (if projectId l \<noteq> proj_id project then False
      else (let d = parseLocalDate now (weekStartDate l)
            in getFullYear d = year \<and> getMonth d = month))"

definition getProjectActualCost ::
  "jsDate \<Rightarrow> Project \<Rightarrow> Employee list \<Rightarrow> WorkLog list \<Rightarrow> int \<Rightarrow> int \<Rightarrow> real" where
  "getProjectActualCost now project employees workLogs year month =
     (let targetLogs = filter (targetLog now project year month) workLogs
      in real_of_int \<lfloor>foldl (addWorkLog employees year month) 0 targetLogs\<rfloor>)"

section \<open>Revenue engine\<close>

text \<open>
  \<^verbatim>\<open>getMonthlyRevenue\<close> adds three blocks into \<^verbatim>\<open>revenue\<close> and floors the total.
  \<open>flowContribution\<close> is \<^verbatim>\<open>revenue\<close> after the flow block, which starts from 0; the other
  two are the amount that the block adds, 0 when the block is skipped.
\<close>

definition flowContribution :: "Project \<Rightarrow> int \<Rightarrow> int \<Rightarrow> real" where
  "flowContribution project year month =
     (case (flowStartDate project, flowEndDate project) of
        (Some fs, Some fe) \<Rightarrow>
          if useFlow project then
            (let s = parseYMD fs; e = parseYMD fe in
             if revenueMethod project = Some Milestone then
               (let ratio = orElse (flowStartRatio (billingConfig project)) 0;
                    startAmount =
                      real_of_int \<lfloor>toDouble (flowAmount project * toDouble (ratio / 100))\<rfloor>;
                    revenue1 =
                      (if getFullYear s = year \<and> getMonth s = month
                          \<and> flowSplit (billingConfig project)
                       then plusAssign 0 startAmount else 0)
                in
                if getFullYear e = year \<and> getMonth e = month
                then (if flowSplit (billingConfig project)
                      then plusAssign revenue1 (toDouble (flowAmount project - startAmount))
                      else plusAssign revenue1 (flowAmount project))
                else revenue1)
             else
               (let startMonthIndex = getFullYear s * 12 + getMonth s;
                    endMonthIndex = getFullYear e * 12 + getMonth e;
                    currentMonthIndex = year * 12 + month
                in
                if startMonthIndex \<le> currentMonthIndex \<and> currentMonthIndex \<le> endMonthIndex then
                  (let totalMonths = endMonthIndex - startMonthIndex + 1 in
                   if 0 < totalMonths then
                     (let baseAmount =
                            real_of_int \<lfloor>toDouble (flowAmount project / of_int totalMonths)\<rfloor>;
                          remainder = jsRem (flowAmount project) (of_int totalMonths)
                      in if currentMonthIndex = endMonthIndex
                         then plusAssign 0 (toDouble (baseAmount + remainder))
                         else plusAssign 0 baseAmount)
                   else 0)
                else 0))
          else 0
      | _ \<Rightarrow> 0)"

definition stockContribution :: "Project \<Rightarrow> int \<Rightarrow> int \<Rightarrow> real" where
  "stockContribution project year month =
     (case stockStartDate project of
        Some ss \<Rightarrow>
          if useStock project \<and> dateLe (parseYMD ss) (mkDate year (month + 1) 0)
          then stockAmount project else 0
      | None \<Rightarrow> 0)"

definition timeChargeContribution :: "Project \<Rightarrow> int \<Rightarrow> int \<Rightarrow> real" where
  "timeChargeContribution project year month =
     (case timeChargePrices project of
        Some prices \<Rightarrow>
          if useTimeCharge project then
            (case prices (year, month + 1) of Some price \<Rightarrow> price | None \<Rightarrow> 0)
          else 0
      | None \<Rightarrow> 0)"

definition getMonthlyRevenue :: "Project \<Rightarrow> jsDate \<Rightarrow> real" where
  "getMonthlyRevenue project date =
     (let year = getFullYear date; month = getMonth date
      in real_of_int
           \<lfloor>plusAssign
              (plusAssign (flowContribution project year month)
                 (stockContribution project year month))
              (timeChargeContribution project year month)\<rfloor>)"

text \<open>
  \<^verbatim>\<open>getPaymentDate\<close>: the first day of the month \<^verbatim>\<open>month + delay\<close>, then either the last
  day of that month (pay day 99) or \<^verbatim>\<open>setDate(day)\<close>.
\<close>

definition getPaymentDate :: "int \<Rightarrow> int \<Rightarrow> int \<Rightarrow> int \<Rightarrow> jsDate" where
  "getPaymentDate year month delay day =
     (let targetDate = mkDate year (month + delay) 1 in
      if day = 99 then mkDate (getFullYear targetDate) (getMonth targetDate + 1) 0
      else setDate targetDate day)"

section \<open>The twelve-month projection\<close>

text \<open>
  One record of the array that \<^verbatim>\<open>generateProjections\<close> returns. The label
  \<^verbatim>\<open>`${month + 1}`\<close> followed by the month sign is kept as the number \<open>month + 1\<close>.
\<close>

record Projection =
  monthLabel :: int
  date :: jsDate
  revenue :: real
  target :: real
  confirmedRevenue :: real
  potentialRevenue :: real
  flowRevenue :: real
  stockRevenue :: real
  cost :: real
  sga :: real
  taxRepayment :: real
  investment :: real
  cashIn :: real
  financialIn :: real
  totalCashIn :: real
  totalCashOut :: real
  cashBalance :: real
  cashBalanceChange :: real

text \<open>
  \<^verbatim>\<open>xs.forEach(x => { acc += f(x) })\<close> with \<^verbatim>\<open>acc\<close> starting at 0. The accumulators of
  one \<^verbatim>\<open>forEach\<close> do not read each other, so each is such a sum of its own.
\<close>

definition forEachSum :: "('a \<Rightarrow> real) \<Rightarrow> 'a list \<Rightarrow> real" where
  "forEachSum f xs = foldl (\<lambda>acc x. acc + f x) 0 xs"

text \<open>
  The clock: \<^verbatim>\<open>today = new Date()\<close> and the first day of the current month.
\<close>

definition currentMonthStart :: "jsDate \<Rightarrow> jsDate" where
  "currentMonthStart today = mkDate (getFullYear today) (getMonth today) 1"

text \<open>The part of one project's revenue that is booked under confirmed and potential.\<close>

definition confirmedPart :: "Project \<Rightarrow> real \<Rightarrow> real" where
  "confirmedPart p rv = (if status p = Ordered \<or> status p = Delivered then rv else 0)"

definition potentialPart :: "Project \<Rightarrow> real \<Rightarrow> real" where
  "potentialPart p rv =
     (if status p = Ordered \<or> status p = Delivered then 0
      else if status p = PreOrder then rv else 0)"

text \<open>
  \<^verbatim>\<open>sPart\<close>, the share of the month's revenue \<open>rv\<close> booked as stock revenue (lines 338 to 356). In the
  hybrid branch \<^verbatim>\<open>parseLocalDate(p.stockStartDate)\<close> is called without a check that
  the string is not empty, so it can return the clock.
\<close>

definition stockPart :: "jsDate \<Rightarrow> Project \<Rightarrow> int \<Rightarrow> int \<Rightarrow> real \<Rightarrow> real" where
  "stockPart now p year month rv =
     (let sPart0 = (if useStock p then orElse (Some (stockAmount p)) 0 else 0);
          sPart1 = (if rv < sPart0 then rv else sPart0)
      in
      if useStock p \<and> \<not> useFlow p then rv
      else if useStock p \<and> useFlow p then
        (let s = parseLocalDate now (stockStartDate p);
             mEnd = mkDate year (month + 1) 0
         in if dateLe s mEnd then stockAmount p else 0)
      else sPart1)"

text \<open>
  The labor cost of the month of \<open>d\<close> (the local \<^verbatim>\<open>cost\<close> of the first loop over the
  projects): actual when the month is before the current month, planned otherwise.
\<close>

definition laborCost ::
  "jsDate \<Rightarrow> Project list \<Rightarrow> Employee list \<Rightarrow> WorkLog list \<Rightarrow> jsDate \<Rightarrow> real" where
  "laborCost now projects employees workLogs d =
     (let year = getFullYear d; month = getMonth d;
          isPast = dateLt d (currentMonthStart now)
      in forEachSum (\<lambda>p. if isPast
                          then getProjectActualCost now p employees workLogs year month
                          else getProjectMonthlyCost p employees year month) projects)"

text \<open>
  \<^verbatim>\<open>paidCost\<close> (lines 425 to 440): the labor cost of \<^verbatim>\<open>new Date(year, month - 1, 1)\<close>.
\<close>

definition paidLaborCost ::
  "jsDate \<Rightarrow> Project list \<Rightarrow> Employee list \<Rightarrow> WorkLog list \<Rightarrow> int \<Rightarrow> int \<Rightarrow> real" where
  "paidLaborCost now projects employees workLogs year month =
     (let prevMonth = mkDate year (month - 1) 1;
          isPrevPast = dateLt prevMonth (currentMonthStart now)
      in forEachSum (\<lambda>p. if isPrevPast
                          then getProjectActualCost now p employees workLogs
                                 (getFullYear prevMonth) (getMonth prevMonth)
                          else getProjectMonthlyCost p employees
                                 (getFullYear prevMonth) (getMonth prevMonth)) projects)"

text \<open>
  What one project adds to \<^verbatim>\<open>cashIn\<close> in the month (lines 375 to 419): the start payment,
  the end payment and the stock and time-charge payment, each 0 when nothing is added.
\<close>

definition flowStartCash :: "Project \<Rightarrow> int \<Rightarrow> int \<Rightarrow> real" where
  "flowStartCash p year month =
     (case flowStartDate p of
        Some fs \<Rightarrow>
          if useFlow p then
            (let bc = billingConfig p; s = parseYMD fs;
                 sPayDate = getPaymentDate (getFullYear s) (getMonth s)
                              (orElse (flowStartDelay bc) 0) (orElse (flowStartPayDay bc) 99)
             in
             if getFullYear sPayDate = year \<and> getMonth sPayDate = month then
               (let ratio = (if flowSplit bc
                             then toDouble (orElse (flowStartRatio bc) 0 / 100) else 0)
                in if flowSplit bc then toDouble (flowAmount p * ratio) else 0)
             else 0)
          else 0
      | None \<Rightarrow> 0)"

definition flowEndCash :: "Project \<Rightarrow> int \<Rightarrow> int \<Rightarrow> real" where
  "flowEndCash p year month =
     (case flowEndDate p of
        Some fe \<Rightarrow>
          if useFlow p then
            (let bc = billingConfig p; e = parseYMD fe;
                 ePayDate = getPaymentDate (getFullYear e) (getMonth e)
                              (orElse (flowEndDelay bc) 0) (orElse (flowEndPayDay bc) 99)
             in
             if getFullYear ePayDate = year \<and> getMonth ePayDate = month then
               (if flowSplit bc
                then (let ratio = toDouble (toDouble (100 - orElse (flowStartRatio bc) 0) / 100)
                      in toDouble (flowAmount p * ratio))
                else flowAmount p)
             else 0)
          else 0
      | None \<Rightarrow> 0)"

definition stockCash :: "Project \<Rightarrow> int \<Rightarrow> int \<Rightarrow> real" where
  "stockCash p year month =
     (if (useStock p \<and> stockStartDate p \<noteq> None) \<or> useTimeCharge p then
        (let delay = orElse (stockDelay (billingConfig p)) 0;
             targetRevenueMonth = mkDate year (month - delay) 1;
             rv = getMonthlyRevenue p targetRevenueMonth
         in if 0 < rv then rv else 0)
      else 0)"

text \<open>The body of \<^verbatim>\<open>projects.forEach\<close> for \<^verbatim>\<open>cashIn\<close>.\<close>

definition addProjectCashIn :: "int \<Rightarrow> int \<Rightarrow> real \<Rightarrow> Project \<Rightarrow> real" where
  "addProjectCashIn year month cashInAcc p =
     plusAssign
       (plusAssign (plusAssign cashInAcc (flowStartCash p year month))
          (flowEndCash p year month))
       (stockCash p year month)"

text \<open>Whether a ledger item falls into the month that starts at \<open>d\<close> (lines 449 to 459).\<close>

definition itemDate :: "CashFlowItem \<Rightarrow> jsDate option" where
  "itemDate item =
     (case paymentDate item of
        Some s \<Rightarrow> Some (parseYMD s)
      | None \<Rightarrow>
          (case targetMonth item of
             Some (y, m) \<Rightarrow> Some (parseYMD (y, m, 1))
           | None \<Rightarrow> None))"

definition itemOccurs :: "jsDate \<Rightarrow> CashFlowItem \<Rightarrow> bool" where
  "itemOccurs d item =
     (if isRecurring item then
        (case periodStart item of
           Some (y, m) \<Rightarrow>
             (let start = parseYMD (y, m, 1);
                  end = (case periodEnd item of
                           Some (y', m') \<Rightarrow> parseYMD (y', m', 1)
                         | None \<Rightarrow> mkDate 9999 11 31)
              in dateLe start d \<and> dateLe d end)
         | None \<Rightarrow> False)
      else
        (case itemDate item of
           Some pDate \<Rightarrow> getFullYear pDate = getFullYear d \<and> getMonth pDate = getMonth d
         | None \<Rightarrow> False))"

text \<open>The four buckets of the ledger items (lines 461 to 467).\<close>

definition sgaPart :: "jsDate \<Rightarrow> CashFlowItem \<Rightarrow> real" where
  "sgaPart d item =
     (if itemOccurs d item then
        (if category item = OperatingExpense then amount item
         else if category item = Tax \<or> category item = LoanRepayment then 0
         else if category item = Investment then 0
         else if category item = LoanIn then 0
         else amount item)
      else 0)"

definition taxRepaymentPart :: "jsDate \<Rightarrow> CashFlowItem \<Rightarrow> real" where
  "taxRepaymentPart d item =
     (if itemOccurs d item then
        (if category item = OperatingExpense then 0
         else if category item = Tax \<or> category item = LoanRepayment then amount item
         else 0)
      else 0)"

definition investmentPart :: "jsDate \<Rightarrow> CashFlowItem \<Rightarrow> real" where
  "investmentPart d item =
     (if itemOccurs d item then
        (if category item = OperatingExpense then 0
         else if category item = Tax \<or> category item = LoanRepayment then 0
         else if category item = Investment then amount item
         else 0)
      else 0)"

definition financialInPart :: "jsDate \<Rightarrow> CashFlowItem \<Rightarrow> real" where
  "financialInPart d item =
     (if itemOccurs d item then
        (if category item = OperatingExpense then 0
         else if category item = Tax \<or> category item = LoanRepayment then 0
         else if category item = Investment then 0
         else if category item = LoanIn then amount item
         else 0)
      else 0)"

text \<open>
  The body of the loop \<^verbatim>\<open>for (let i = 0; i < 12; i++)\<close>: the record that iteration \<open>i\<close>
  pushes when it starts with the running balance \<open>currentCash\<close>.
\<close>

definition monthRecord ::
  "jsDate \<Rightarrow> Project list \<Rightarrow> Employee list \<Rightarrow> WorkLog list \<Rightarrow> jsDate \<Rightarrow> AppSettings
     \<Rightarrow> int \<Rightarrow> real \<Rightarrow> Projection" where
  "monthRecord now projects employees workLogs termStart settings i currentCash =
     (let d = mkDate (getFullYear termStart) (getMonth termStart + i) 1;
          year = getFullYear d;
          month = getMonth d;
          revenueV = forEachSum (\<lambda>p. getMonthlyRevenue p d) projects;
          confirmedV = forEachSum (\<lambda>p. confirmedPart p (getMonthlyRevenue p d)) projects;
          potentialV = forEachSum (\<lambda>p. potentialPart p (getMonthlyRevenue p d)) projects;
          stockV = forEachSum (\<lambda>p. stockPart now p year month (getMonthlyRevenue p d)) projects;
          flowV = forEachSum
                    (\<lambda>p. getMonthlyRevenue p d
                           - stockPart now p year month (getMonthlyRevenue p d)) projects;
          targetV = orElse (salesTargets settings (year, month + 1))
                      (orElse (monthlySalesTarget settings) 0);
          cashInV = real_of_int
                      \<lfloor>toDouble (foldl (addProjectCashIn year month) 0 projects
                                   * toDouble (11 / 10))\<rfloor>;
          paidCost = paidLaborCost now projects employees workLogs year month;
          sgaV = forEachSum (sgaPart d) (cashFlowItems settings);
          taxV = forEachSum (taxRepaymentPart d) (cashFlowItems settings);
          investmentV = forEachSum (investmentPart d) (cashFlowItems settings);
          financialInV = forEachSum (financialInPart d) (cashFlowItems settings);
          totalIn = cashInV + financialInV;
          totalOut = paidCost + sgaV + taxV + investmentV;
          balanceChange = totalIn - totalOut
      in \<lparr>monthLabel = month + 1, date = d, revenue = revenueV, target = targetV,
          confirmedRevenue = confirmedV, potentialRevenue = potentialV,
          flowRevenue = flowV, stockRevenue = stockV, cost = paidCost, sga = sgaV,
          taxRepayment = taxV, investment = investmentV, cashIn = cashInV,
          financialIn = financialInV, totalCashIn = totalIn, totalCashOut = totalOut,
          cashBalance = currentCash + balanceChange, cashBalanceChange = balanceChange\<rparr>)"

text \<open>
  The loop itself: \<open>body i currentCash\<close> is the record of iteration \<open>i\<close>, and the running
  balance that the next iteration starts with is the balance of that record.
\<close>

function projectionLoop ::
  "(int \<Rightarrow> real \<Rightarrow> Projection) \<Rightarrow> int \<Rightarrow> real \<Rightarrow> Projection list \<Rightarrow> Projection list" where
  "projectionLoop body i currentCash data =
     (if i < 12
      then (let r = body i currentCash
            in projectionLoop body (i + 1) (cashBalance r) (data @ [r]))
      else data)"
  by pat_completeness auto
termination
  by (relation "measure (\<lambda>(body, i, currentCash, data). nat (12 - i))") auto

declare projectionLoop.simps [simp del]

definition generateProjections ::
  "jsDate \<Rightarrow> Project list \<Rightarrow> Employee list \<Rightarrow> WorkLog list \<Rightarrow> jsDate \<Rightarrow> AppSettings
     \<Rightarrow> Projection list" where
  "generateProjections now projects employees workLogs termStart settings =
     projectionLoop (monthRecord now projects employees workLogs termStart settings)
       0 (initialCashBalance settings) []"

section \<open>The daily cash flow of one month\<close>

record DailyCash =
  day :: int
  change :: real
  balance :: real












section \<open>Example data\<close>

text \<open>
  The seed data of \<^verbatim>\<open>context/AppContext.tsx\<close> for the term 2025: project 101 (milestone
  flow of 6,000,000 from 2025-01-01 to 2025-06-30, split 50/50, stock of 50,000 from
  2025-07-01) and the two seed employees. The project has a second assignment here, to an
  employee id that is in no collection.
\<close>

definition exBilling :: BillingConfig where
  "exBilling = \<lparr>flowSplit = True, flowStartRatio = Some 50, flowStartDelay = Some 1,
     flowStartPayDay = Some 99, flowEndDelay = Some 1, flowEndPayDay = Some 99,
     stockDelay = Some 1, stockPayDay = Some 99\<rparr>"

definition exProject :: Project where
  "exProject = \<lparr>proj_id = ''101'', status = Ordered, useFlow = True, useStock = True,
     useTimeCharge = False, revenueMethod = Some Milestone, flowAmount = 6000000,
     flowStartDate = Some (2025, 1, 1), flowEndDate = Some (2025, 6, 30),
     stockAmount = 50000, stockStartDate = Some (2025, 7, 1), timeChargePrices = None,
     billingConfig = exBilling,
     assignments = [\<lparr>employeeId = ''1'', utilizationRate = 50\<rparr>,
                    \<lparr>employeeId = ''9'', utilizationRate = 80\<rparr>],
     isArchived = False\<rparr>"

definition exEmployees :: "Employee list" where
  "exEmployees =
     [\<lparr>emp_id = ''1'', defaultMonthlyCost = 600000, defaultMonthlyHours = 160,
        monthlyData = Map.empty\<rparr>,
      \<lparr>emp_id = ''2'', defaultMonthlyCost = 400000, defaultMonthlyHours = 120,
        monthlyData = Map.empty\<rparr>]"

text \<open>
  A flow-only project recognised by duration, from 2025-01-01 to a given end date.
\<close>

definition durationProject :: "real \<Rightarrow> int \<times> int \<times> int \<Rightarrow> Project" where
  "durationProject a fe =
     exProject\<lparr>revenueMethod := Some Duration, flowAmount := a, flowEndDate := Some fe,
       useStock := False\<rparr>"

text \<open>
  Three work logs of January 2025 for the seed project, the second by an employee id that
  is in no collection, and a clock: 14 March 2025, 09:30.
\<close>

definition exWorkLogs :: "WorkLog list" where
  "exWorkLogs =
     [\<lparr>projectId = ''101'', log_employeeId = ''1'', weekStartDate = Some (2025, 1, 6),
        actualHours = 40\<rparr>,
      \<lparr>projectId = ''101'', log_employeeId = ''9'', weekStartDate = Some (2025, 1, 13),
        actualHours = 35\<rparr>,
      \<lparr>projectId = ''101'', log_employeeId = ''2'', weekStartDate = Some (2025, 1, 20),
        actualHours = 12\<rparr>]"

definition exNow :: jsDate where
  "exNow = \<lparr>getFullYear = 2025, getMonth = 2, getDate = 14, getMillis = 34200000\<rparr>"

text \<open>
  The default settings of \<^verbatim>\<open>context/AppContext.tsx\<close> (rent on the 25th and a loan
  repayment on the 10th of every month from 2024-12, a tax payment on 2025-05-31, an
  opening balance of 10,000,000) and the start of the term 2025, 1 December 2024.
\<close>

definition exSettings :: AppSettings where
  "exSettings =
     \<lparr>salesTargets = Map.empty, monthlySalesTarget = Some 5000000,
      initialCashBalance = 10000000,
      cashFlowItems =
        [\<lparr>category = OperatingExpense, amount = 200000, isRecurring = True,
           periodStart = Some (2024, 12), periodEnd = None, payDay = Some 25,
           paymentDate = None, targetMonth = None\<rparr>,
         \<lparr>category = Tax, amount = 1500000, isRecurring = False,
           periodStart = None, periodEnd = None, payDay = None,
           paymentDate = Some (2025, 5, 31), targetMonth = None\<rparr>,
         \<lparr>category = LoanRepayment, amount = 150000, isRecurring = True,
           periodStart = Some (2024, 12), periodEnd = None, payDay = Some 10,
           paymentDate = None, targetMonth = None\<rparr>]\<rparr>"

definition exTermStart :: jsDate where
  "exTermStart = \<lparr>getFullYear = 2024, getMonth = 11, getDate = 1, getMillis = 0\<rparr>"

text \<open>
  The seed project with the stock start date cleared (an empty date field), and a lost
  stock-only project with a given monthly amount from 2024-12-01.
\<close>

definition hybridNoStockDate :: Project where
  "hybridNoStockDate = exProject\<lparr>stockStartDate := None\<rparr>"





text \<open>
  The seed project without stock, with a given flow amount and start ratio.
\<close>

definition milestoneProject :: "real \<Rightarrow> real \<Rightarrow> Project" where
  "milestoneProject a r =
     exProject\<lparr>flowAmount := a, billingConfig := exBilling\<lparr>flowStartRatio := Some r\<rparr>,
       useStock := False\<rparr>"


section \<open>Rounding to double precision\<close>

text \<open>
  The exponent found by \<open>binade\<close> is the one of the binary representation, rounding is
  monotone against whole numbers and against doubles, whole numbers below \<open>2 ^ 53\<close> are
  doubles, and the quotient of a whole number below \<open>2 ^ 53\<close> by a positive whole number
  is rounded to a double with the same floor.
\<close>

lemma pow2_powr: "pow2 k = 2 powr (of_int k)"
  by (simp add: pow2_def powr_int)

lemma pow2_pos: "0 < pow2 k"
  by (simp add: pow2_powr)

lemma pow2_add: "pow2 (a + b) = pow2 a * pow2 b"
  by (simp add: pow2_powr powr_add)

lemma pow2_mono: "a \<le> b \<Longrightarrow> pow2 a \<le> pow2 b"
  by (simp add: pow2_powr)

lemma pow2_less_cancel: "pow2 a < pow2 b \<Longrightarrow> a < b"
  by (simp add: pow2_powr)

lemma pow2_nat: "0 \<le> k \<Longrightarrow> pow2 k = of_int (2 ^ nat k)"
  by (simp add: pow2_def)

lemma pow2_inverse: "1 / pow2 k = pow2 (- k)"
  by (simp add: pow2_powr powr_minus_divide)

lemma findBinade_ge: "- 1022 \<le> findBinade n x"
  by (induction n) simp_all

lemma findBinade_le: "findBinade n x \<le> int n - 1022"
  by (induction n) auto

lemma findBinade_lower: "- 1022 < findBinade n x \<Longrightarrow> pow2 (findBinade n x) \<le> \<bar>x\<bar>"
  by (induction n) (auto split: if_splits)

lemma findBinade_upper: "\<bar>x\<bar> < pow2 (int n - 1021) \<Longrightarrow> \<bar>x\<bar> < pow2 (findBinade n x + 1)"
proof (induction n)
  case 0
  then show ?case by simp
next
  case (Suc n)
  have eq: "int (Suc n) - 1022 = int n - 1021" "int (Suc n) - 1022 + 1 = int (Suc n) - 1021"
    by simp_all
  show ?case
  proof (cases "pow2 (int (Suc n) - 1022) \<le> \<bar>x\<bar>")
    case True
    then have "findBinade (Suc n) x + 1 = int (Suc n) - 1021" by simp
    then show ?thesis using Suc.prems by (simp only:)
  next
    case False
    then have "\<bar>x\<bar> < pow2 (int n - 1021)" by (simp only: eq not_le)
    then have "\<bar>x\<bar> < pow2 (findBinade n x + 1)" by (rule Suc.IH)
    with False show ?thesis by simp
  qed
qed

lemma binade_ge: "- 1022 \<le> binade x"
  by (simp add: binade_def findBinade_ge)

lemma binade_lower: "- 1022 < binade x \<Longrightarrow> pow2 (binade x) \<le> \<bar>x\<bar>"
  unfolding binade_def by (rule findBinade_lower)

lemma binade_upper: "\<bar>x\<bar> < pow2 1024 \<Longrightarrow> \<bar>x\<bar> < pow2 (binade x + 1)"
  unfolding binade_def using findBinade_upper [of x 2045] by simp

lemma binade_eq:
  assumes "pow2 e \<le> \<bar>x\<bar>" "\<bar>x\<bar> < pow2 (e + 1)" "- 1022 \<le> e" "e \<le> 1023"
  shows "binade x = e"
proof -
  have "pow2 (e + 1) \<le> pow2 1024"
    using assms(4) by (intro pow2_mono) simp
  with assms(2) have up: "\<bar>x\<bar> < pow2 (binade x + 1)"
    by (intro binade_upper) simp
  have "\<not> binade x < e"
  proof
    assume "binade x < e"
    then have "pow2 (binade x + 1) \<le> pow2 e" by (intro pow2_mono) simp
    with up assms(1) show False by simp
  qed
  moreover have "\<not> e < binade x"
  proof
    assume lt: "e < binade x"
    with assms(3) have "pow2 (binade x) \<le> \<bar>x\<bar>" by (intro binade_lower) simp
    moreover from lt have "pow2 (e + 1) \<le> pow2 (binade x)" by (intro pow2_mono) simp
    ultimately show False using assms(2) by simp
  qed
  ultimately show ?thesis by simp
qed


lemma binade_small:
  assumes "\<bar>x\<bar> < 2 ^ 53"
  shows "binade x \<le> 52"
proof (rule ccontr)
  assume "\<not> binade x \<le> 52"
  then have b: "53 \<le> binade x" by simp
  then have "pow2 (binade x) \<le> \<bar>x\<bar>" by (intro binade_lower) simp
  moreover from b have "pow2 53 \<le> pow2 (binade x)" by (rule pow2_mono)
  moreover have "pow2 53 = 2 ^ 53" by (simp add: pow2_def)
  ultimately show False using assms by simp
qed

lemma roundEven_of_int: "roundEven (of_int k) = k"
  by (simp add: roundEven_def)

lemma roundEven_le:
  assumes "y \<le> of_int k"
  shows "roundEven y \<le> k"
proof (cases "\<lfloor>y\<rfloor> = k")
  case True
  then have "of_int k \<le> y" by (metis of_int_floor_le)
  with assms have "y = of_int k" by simp
  then show ?thesis by (simp add: roundEven_of_int)
next
  case False
  moreover have "\<lfloor>y\<rfloor> \<le> k" using assms by (simp add: floor_le_iff)
  ultimately have "\<lfloor>y\<rfloor> + 1 \<le> k" by simp
  then show ?thesis by (simp add: roundEven_def Let_def)
qed

lemma roundEven_ge:
  assumes "of_int k \<le> y"
  shows "k \<le> roundEven y"
proof -
  have "k \<le> \<lfloor>y\<rfloor>" using assms by (simp add: le_floor_iff)
  then show ?thesis by (simp add: roundEven_def Let_def)
qed

lemma roundEven_less:
  assumes "y < of_int k - 1 / 2"
  shows "roundEven y < k"
proof -
  have f: "of_int \<lfloor>y\<rfloor> \<le> y" by simp
  with assms have "real_of_int \<lfloor>y\<rfloor> < of_int k" by linarith
  then have le: "\<lfloor>y\<rfloor> \<le> k - 1" by simp
  show ?thesis
  proof (cases "\<lfloor>y\<rfloor> = k - 1")
    case True
    then have "y - of_int \<lfloor>y\<rfloor> < 1 / 2" using assms by simp
    then show ?thesis using True by (simp add: roundEven_def Let_def)
  next
    case False
    with le have "\<lfloor>y\<rfloor> + 1 < k" by simp
    then show ?thesis by (simp add: roundEven_def Let_def)
  qed
qed

lemma ulp_pos: "0 < ulp x"
  by (simp add: ulp_def pow2_pos)

lemma toDouble_zero: "toDouble 0 = 0"
  by (simp add: toDouble_def)

lemma toDouble_nonneg:
  assumes "0 \<le> x"
  shows "0 \<le> toDouble x"
proof -
  have "of_int 0 \<le> x / ulp x" using assms ulp_pos [of x] by simp
  then have "0 \<le> roundEven (x / ulp x)" by (rule roundEven_ge)
  then show ?thesis using ulp_pos [of x] by (simp add: toDouble_def)
qed

lemma ulp_inverse:
  assumes "\<bar>x\<bar> < 2 ^ 53"
  shows "1 / ulp x = of_int (2 ^ nat (52 - binade x))"
proof -
  have "1 / ulp x = pow2 (52 - binade x)"
    by (simp add: ulp_def pow2_inverse)
  also have "\<dots> = of_int (2 ^ nat (52 - binade x))"
    using binade_small [OF assms] by (intro pow2_nat) simp
  finally show ?thesis .
qed

lemma toDouble_le_int:
  assumes "x \<le> of_int c" "\<bar>x\<bar> < 2 ^ 53"
  shows "toDouble x \<le> of_int c"
proof (cases "x = 0")
  case True
  with assms show ?thesis by (simp add: toDouble_def)
next
  case False
  define j where "j = (2::int) ^ nat (52 - binade x)"
  have inv: "1 / ulp x = of_int j"
    unfolding j_def using assms(2) by (rule ulp_inverse)
  have "x / ulp x = x * (1 / ulp x)" by simp
  also have "\<dots> \<le> of_int c * (1 / ulp x)"
    using assms(1) ulp_pos [of x] by (intro mult_right_mono) simp_all
  also have "\<dots> = of_int (c * j)" by (simp add: inv)
  finally have "roundEven (x / ulp x) \<le> c * j" by (rule roundEven_le)
  then have "real_of_int (roundEven (x / ulp x)) \<le> of_int (c * j)" by (simp only: of_int_le_iff)
  then have "ulp x * of_int (roundEven (x / ulp x)) \<le> ulp x * of_int (c * j)"
    using ulp_pos [of x] by (intro mult_left_mono) simp_all
  also have "\<dots> = of_int c * (ulp x * (1 / ulp x))" by (simp add: inv)
  also have "\<dots> = of_int c" using ulp_pos [of x] by simp
  finally show ?thesis using False by (simp add: toDouble_def)
qed

lemma toDouble_ge_int:
  assumes "of_int c \<le> x" "\<bar>x\<bar> < 2 ^ 53"
  shows "of_int c \<le> toDouble x"
proof (cases "x = 0")
  case True
  with assms show ?thesis by (simp add: toDouble_def)
next
  case False
  define j where "j = (2::int) ^ nat (52 - binade x)"
  have inv: "1 / ulp x = of_int j"
    unfolding j_def using assms(2) by (rule ulp_inverse)
  have "of_int (c * j) = of_int c * (1 / ulp x)" by (simp add: inv)
  also have "\<dots> \<le> x * (1 / ulp x)"
    using assms(1) ulp_pos [of x] by (intro mult_right_mono) simp_all
  also have "\<dots> = x / ulp x" by simp
  finally have "c * j \<le> roundEven (x / ulp x)" by (rule roundEven_ge)
  then have "real_of_int (c * j) \<le> of_int (roundEven (x / ulp x))" by (simp only: of_int_le_iff)
  then have "ulp x * of_int (c * j) \<le> ulp x * of_int (roundEven (x / ulp x))"
    using ulp_pos [of x] by (intro mult_left_mono) simp_all
  moreover have "ulp x * of_int (c * j) = of_int c * (ulp x * (1 / ulp x))" by (simp add: inv)
  moreover have "of_int c * (ulp x * (1 / ulp x)) = of_int c" using ulp_pos [of x] by simp
  ultimately have "of_int c \<le> ulp x * of_int (roundEven (x / ulp x))" by (simp only:)
  then show ?thesis using False by (simp add: toDouble_def)
qed

lemma toDouble_of_int:
  assumes "\<bar>z\<bar> < 2 ^ 53"
  shows "toDouble (of_int z) = of_int z"
proof -
  have b: "\<bar>real_of_int z\<bar> < 2 ^ 53"
  proof -
    have "real_of_int \<bar>z\<bar> < of_int (2 ^ 53)" using assms by (simp only: of_int_less_iff)
    then show ?thesis by simp
  qed
  have "toDouble (of_int z) \<le> of_int z" by (rule toDouble_le_int [OF _ b]) simp
  moreover have "of_int z \<le> toDouble (of_int z)" by (rule toDouble_ge_int [OF _ b]) simp
  ultimately show ?thesis by simp
qed

lemma toDouble_less_int:
  assumes "x < of_int c" "\<bar>x\<bar> < 2 ^ 53" "ulp x / 2 < of_int c - x"
  shows "toDouble x < of_int c"
proof (cases "x = 0")
  case True
  with assms show ?thesis by (simp add: toDouble_def)
next
  case False
  define j where "j = (2::int) ^ nat (52 - binade x)"
  have inv: "1 / ulp x = of_int j"
    unfolding j_def using assms(2) by (rule ulp_inverse)
  have u: "ulp x * of_int j = 1"
    using inv ulp_pos [of x] by (simp add: field_simps)
  have "(ulp x / 2) * (1 / ulp x) < (of_int c - x) * (1 / ulp x)"
    using assms(3) ulp_pos [of x] by (intro mult_strict_right_mono) simp_all
  then have "1 / 2 < of_int c * of_int j - x / ulp x"
    using ulp_pos [of x] by (simp add: inv [symmetric] field_simps)
  then have "x / ulp x < of_int (c * j) - 1 / 2" by simp
  then have "roundEven (x / ulp x) < c * j" by (rule roundEven_less)
  then have "real_of_int (roundEven (x / ulp x)) < of_int (c * j)" by (simp only: of_int_less_iff)
  then have "ulp x * of_int (roundEven (x / ulp x)) < ulp x * of_int (c * j)"
    using ulp_pos [of x] by (intro mult_strict_left_mono) simp_all
  also have "\<dots> = of_int c * (ulp x * of_int j)" by simp
  also have "\<dots> = of_int c" by (simp only: u mult_1_right)
  finally show ?thesis using False by (simp add: toDouble_def)
qed

lemma ulp_le:
  assumes "- 1022 < binade x"
  shows "ulp x \<le> \<bar>x\<bar> / 2 ^ 52"
proof -
  have "ulp x = pow2 (binade x) * pow2 (- 52)"
    unfolding ulp_def by (simp add: pow2_add [symmetric])
  also have "\<dots> \<le> \<bar>x\<bar> * pow2 (- 52)"
    using binade_lower [OF assms] pow2_pos [of "- 52"] by (intro mult_right_mono) simp_all
  also have "pow2 (- 52) = 1 / 2 ^ 52" by (simp add: pow2_def)
  finally show ?thesis by simp
qed



lemma toDouble_eval:
  assumes "pow2 e \<le> \<bar>x\<bar>" "\<bar>x\<bar> < pow2 (e + 1)" "- 1022 \<le> e" "e \<le> 1023"
  shows "toDouble x = pow2 (e - 52) * of_int (roundEven (x / pow2 (e - 52)))"
proof -
  have "x \<noteq> 0" using assms(1) pow2_pos [of e] by auto
  then show ?thesis
    by (simp add: toDouble_def ulp_def binade_eq [OF assms])
qed

lemma floor_toDouble_div:
  assumes "0 \<le> a" "a < 2 ^ 53" "0 < n"
  shows "\<lfloor>toDouble (of_int a / of_int n)\<rfloor> = a div n"
proof -
  define x where "x = real_of_int a / real_of_int n"
  define q where "q = a div n"
  have fl: "\<lfloor>x\<rfloor> = q" by (simp add: x_def q_def floor_divide_of_int_eq)
  have x0: "0 \<le> x" using assms by (simp add: x_def)
  have "x \<le> real_of_int a"
  proof -
    have "real_of_int a / real_of_int n \<le> real_of_int a / 1"
      using assms by (intro divide_left_mono) simp_all
    then show ?thesis by (simp add: x_def)
  qed
  moreover have "real_of_int a < 2 ^ 53"
  proof -
    have "real_of_int a < of_int (2 ^ 53)" using assms(2) by (simp only: of_int_less_iff)
    then show ?thesis by simp
  qed
  ultimately have xb: "\<bar>x\<bar> < 2 ^ 53" using x0 by simp
  have lower: "of_int q \<le> toDouble x"
  proof (rule toDouble_ge_int [OF _ xb])
    show "of_int q \<le> x" using fl by (metis of_int_floor_le)
  qed
  have upper: "toDouble x < of_int (q + 1)"
  proof (cases "a mod n = 0")
    case True
    then have "a = n * q" by (auto simp: q_def)
    then have "x = of_int q" using assms(3) by (simp add: x_def)
    moreover have "\<bar>q\<bar> < 2 ^ 53"
    proof -
      have "0 \<le> q" using assms by (simp add: q_def pos_imp_zdiv_nonneg_iff)
      moreover have "q \<le> a" using assms zdiv_mono2 [of a 1 n] by (simp add: q_def)
      ultimately show ?thesis using assms(2) by simp
    qed
    ultimately show ?thesis by (simp add: toDouble_of_int)
  next
    case False
    have "0 \<le> a mod n" "a mod n < n"
      using assms(3) by simp_all
    with False have r: "0 < a mod n" "a mod n < n"
      by simp_all
    have an: "real_of_int a = of_int n * of_int q + of_int (a mod n)"
      unfolding q_def by (simp flip: of_int_mult of_int_add)
    have nz: "real_of_int n \<noteq> 0" "0 < real_of_int n" using assms(3) by simp_all
    have xq: "x = of_int q + of_int (a mod n) / of_int n"
      unfolding x_def an using nz by (simp add: field_simps)
    have "a mod n \<le> n - 1"
      using r(2) by simp
    then have "real_of_int (a mod n) \<le> of_int (n - 1)"
      by (simp only: of_int_le_iff)
    then have "real_of_int (a mod n) \<le> of_int n - 1"
      by simp
    then have "real_of_int (a mod n) / of_int n \<le> (of_int n - 1) / of_int n"
      using nz by (intro divide_right_mono) simp_all
    also have "\<dots> = 1 - 1 / of_int n" using nz by (simp add: field_simps)
    finally have gap: "1 / of_int n \<le> of_int (q + 1) - x"
      by (simp add: xq)
    have "0 < 1 / real_of_int n"
      using nz(2) by simp
    with gap have xlt: "x < of_int (q + 1)"
      by linarith
    have "ulp x / 2 < of_int (q + 1) - x"
    proof (cases "- 1022 < binade x")
      case True
      have "ulp x / 2 \<le> (\<bar>x\<bar> / 2 ^ 52) / 2"
        using ulp_le [OF True] by simp
      also have "\<bar>x\<bar> = x"
        using x0 by simp
      also have "(x / 2 ^ 52) / 2 = (real_of_int a / 2 ^ 53) / of_int n"
        by (simp add: x_def)
      also have "\<dots> < 1 / of_int n"
        using \<open>real_of_int a < 2 ^ 53\<close> nz by (intro divide_strict_right_mono) simp_all
      finally show ?thesis using gap by simp
    next
      case False
      with binade_ge [of x] have b: "binade x = - 1022" by simp
      have "x < pow2 1024"
      proof -
        have "(2::real) ^ 53 \<le> pow2 1024" by (simp add: pow2_def)
        with xb show ?thesis by simp
      qed
      then have "\<bar>x\<bar> < pow2 1024" using x0 by simp
      then have "\<bar>x\<bar> < pow2 (binade x + 1)" by (rule binade_upper)
      moreover have "pow2 (- 1021) \<le> pow2 (- 1)" by (intro pow2_mono) simp
      moreover have "pow2 (- 1) = 1 / 2" by (simp add: pow2_def)
      ultimately have small: "x < 1 / 2" using b x0 by simp
      then have "\<lfloor>x\<rfloor> = 0" using x0 by (intro floor_unique) simp_all
      then have q0: "q = 0" using fl by simp
      have "ulp x \<le> pow2 0" unfolding ulp_def b by (intro pow2_mono) simp
      then have "ulp x \<le> 1" by (simp add: pow2_def)
      then show ?thesis using small q0 by simp
    qed
    then show ?thesis by (rule toDouble_less_int [OF xlt xb])
  qed
  have "\<lfloor>toDouble x\<rfloor> = q"
    using lower upper by (intro floor_unique) simp_all
  then show ?thesis by (simp only: x_def q_def)
qed



lemma plusAssign_zero: "plusAssign 0 v = v" "plusAssign acc 0 = acc"
  by (simp_all add: plusAssign_def)


lemma toDouble_numeral:
  "(numeral k :: int) < 9007199254740992 \<Longrightarrow> toDouble (numeral k) = numeral k"
  using toDouble_of_int [of "numeral k"] by simp


lemma toDouble_one: "toDouble 1 = 1"
  using toDouble_of_int [of 1] by simp

lemma toDouble_whole:
  assumes "0 \<le> z" "z < 2 ^ 53"
  shows "toDouble (of_int z) = of_int z"
  using assms by (intro toDouble_of_int) simp

lemma toDouble_ratio:
  assumes "0 \<le> r" "r \<le> 100"
  shows "0 \<le> toDouble (r / 100)" "toDouble (r / 100) \<le> 1"
proof -
  show "0 \<le> toDouble (r / 100)"
    using assms(1) by (intro toDouble_nonneg) simp
  have "toDouble (r / 100) \<le> of_int 1"
    using assms by (intro toDouble_le_int) simp_all
  then show "toDouble (r / 100) \<le> 1"
    by simp
qed

section \<open>Calendar lemmas\<close>

lemma daysOfIndex_bounds: "28 \<le> daysOfIndex k" "daysOfIndex k \<le> 31"
  by (simp_all add: daysOfIndex_def daysInMonth_def)

lemma normaliseDay_in_range:
  "1 \<le> d \<Longrightarrow> d \<le> daysOfIndex k \<Longrightarrow> normaliseDay k d = (k, d)"
  by (subst normaliseDay.simps) simp

lemma normaliseDay_zero: "normaliseDay k 0 = (k - 1, daysOfIndex (k - 1))"
proof -
  have "normaliseDay k 0 = normaliseDay (k - 1) (daysOfIndex (k - 1))"
    by (subst normaliseDay.simps) simp
  also have "\<dots> = (k - 1, daysOfIndex (k - 1))"
    using daysOfIndex_bounds [of "k - 1"] by (intro normaliseDay_in_range) auto
  finally show ?thesis .
qed

lemma normaliseDay_over:
  assumes "daysOfIndex k < d" "d \<le> daysOfIndex k + 28"
  shows "normaliseDay k d = (k + 1, d - daysOfIndex k)"
proof -
  have "normaliseDay k d = normaliseDay (k + 1) (d - daysOfIndex k)"
    using assms daysOfIndex_bounds [of k] by (subst normaliseDay.simps) simp
  also have "\<dots> = (k + 1, d - daysOfIndex k)"
    using assms daysOfIndex_bounds [of "k + 1"] by (intro normaliseDay_in_range) auto
  finally show ?thesis .
qed

lemma mkDate_first:
  "mkDate y m 1 = \<lparr>getFullYear = (y * 12 + m) div 12, getMonth = (y * 12 + m) mod 12,
                    getDate = 1, getMillis = 0\<rparr>"
  using daysOfIndex_bounds [of "y * 12 + m"]
  by (simp add: mkDate_def normaliseDay_in_range)

lemma mkDate_last:
  "mkDate y (m + 1) 0 = \<lparr>getFullYear = (y * 12 + m) div 12, getMonth = (y * 12 + m) mod 12,
                    getDate = daysOfIndex (y * 12 + m), getMillis = 0\<rparr>"
  by (simp add: mkDate_def normaliseDay_zero add.assoc [symmetric])

lemma lex_month:
  "(a div 12 < b div 12 \<or> (a div 12 = b div 12 \<and> a mod 12 < b mod 12)) \<longleftrightarrow> a < (b::int)"
proof -
  have a: "a = 12 * (a div 12) + a mod 12" and b: "b = 12 * (b div 12) + b mod 12"
    by simp_all
  have ra: "0 \<le> a mod 12" "a mod 12 < 12" and rb: "0 \<le> b mod 12" "b mod 12 < 12"
    by simp_all
  show ?thesis using a b ra rb by linarith
qed

lemma index_div_mod: "(k div 12) * 12 + k mod 12 = (k::int)"
  by simp

lemma mkDate_fields:
  "getFullYear (mkDate y m d) = fst (normaliseDay (y * 12 + m) d) div 12"
  "getMonth (mkDate y m d) = fst (normaliseDay (y * 12 + m) d) mod 12"
  "getDate (mkDate y m d) = snd (normaliseDay (y * 12 + m) d)"
  "getMillis (mkDate y m d) = 0"
  by (simp_all add: mkDate_def split: prod.splits)

lemma monthIndex_mkDate: "monthIndex (mkDate y m d) = fst (normaliseDay (y * 12 + m) d)"
  by (simp add: monthIndex_def mkDate_fields)

lemma dateLt_mkDate_month:
  assumes "getFullYear a = ka div 12" "getMonth a = ka mod 12" "ka < monthIndex (mkDate y m d)"
  shows "dateLt a (mkDate y m d)"
  using assms lex_month [of ka "fst (normaliseDay (y * 12 + m) d)"]
  by (auto simp: dateLt_def monthIndex_mkDate mkDate_fields)

lemma mkDate_dateLt_month:
  assumes "getFullYear b = kb div 12" "getMonth b = kb mod 12" "monthIndex (mkDate y m d) < kb"
  shows "dateLt (mkDate y m d) b"
  using assms lex_month [of "fst (normaliseDay (y * 12 + m) d)" kb]
  by (auto simp: dateLt_def monthIndex_mkDate mkDate_fields)

text \<open>
  Evaluation of dates at numerals. The recursive equation of \<open>normaliseDay\<close> is only used
  at literal arguments, where its conditions can be decided.
\<close>

lemmas normaliseDay_eval =
  normaliseDay.simps [of "numeral k" "numeral d"]
  normaliseDay.simps [of "numeral k" 1]
  normaliseDay.simps [of "numeral k" 0]
  normaliseDay.simps [of "numeral k" "- numeral d"]
  for k d

lemmas date_eval = mkDate_def normaliseDay_eval daysOfIndex_def daysInMonth_def leapYear_def
  parseYMD_def monthIndex_def dateLt_def dateLe_def


section \<open>Cost gating\<close>

text \<open>
  C6. For a project that uses Flow and has both flow dates, the planned cost
  (\<^verbatim>\<open>getProjectMonthlyCost\<close>) of a calendar month that lies outside the flow window is 0,
  whatever the assignments are. The month \<open>(year, month)\<close> lies outside the window when
  it comes before the month of \<open>flowStartDate\<close> or after the month of \<open>flowEndDate\<close>
  (months compared by \<open>year * 12 + month\<close>); for a start date that is not after the end
  date these are the months that share no day with the inclusive range.
\<close>

theorem C6_cost_gating:
  assumes "useFlow p" and "flowStartDate p = Some fs" and "flowEndDate p = Some fe"
    and "year * 12 + month < monthIndex (parseYMD fs)
         \<or> monthIndex (parseYMD fe) < year * 12 + month"
  shows "getProjectMonthlyCost p employees year month = 0"
proof -
  obtain ys ms ds where fs: "fs = (ys, ms, ds)" by (cases fs)
  obtain ye me de where fe: "fe = (ye, me, de)" by (cases fe)
  have "dateLt (mkDate year (month + 1) 0) (parseYMD fs) \<or> dateLt (parseYMD fe) (mkDate year month 1)"
  proof (rule disjE [OF assms(4)])
    assume "year * 12 + month < monthIndex (parseYMD fs)"
    then have "dateLt (mkDate year (month + 1) 0) (parseYMD fs)"
      unfolding fs parseYMD_def prod.case
      by (intro dateLt_mkDate_month [where ka = "year * 12 + month"]) (simp_all add: mkDate_last)
    then show ?thesis ..
  next
    assume "monthIndex (parseYMD fe) < year * 12 + month"
    then have "dateLt (parseYMD fe) (mkDate year month 1)"
      unfolding fe parseYMD_def prod.case
      by (intro mkDate_dateLt_month [where kb = "year * 12 + month"]) (simp_all add: mkDate_first)
    then show ?thesis ..
  qed
  then show ?thesis
    using assms(1-3) by (auto simp: getProjectMonthlyCost_def Let_def)
qed


text \<open>
  The seed project in July 2025 (after the window that ends in June) costs nothing, while in
  June its one resolvable assignment costs 50 percent of 600,000.
\<close>

theorem C6_cost_gating_witness:
  "getProjectMonthlyCost exProject exEmployees 2025 6 = 0
   \<and> getProjectMonthlyCost exProject exEmployees 2025 5 = 300000"
proof
  show "getProjectMonthlyCost exProject exEmployees 2025 6 = 0"
    by (rule C6_cost_gating [where fs = "(2025, 1, 1)" and fe = "(2025, 6, 30)"])
       (simp_all add: exProject_def date_eval)
  show "getProjectMonthlyCost exProject exEmployees 2025 5 = 300000"
    by (simp add: getProjectMonthlyCost_def exProject_def exEmployees_def date_eval
        addAssignment_def findEmployee_def getEmployeeMonthlyData_def)
qed

section \<open>Flow revenue recognised by duration\<close>

lemma forEachSum_foldl: "foldl (\<lambda>acc x. acc + f x) a xs = a + sum_list (map f xs)"
  by (induction xs arbitrary: a) (simp_all add: add.assoc)

lemma forEachSum_sum_list: "forEachSum f xs = sum_list (map f xs)"
  by (simp add: forEachSum_def forEachSum_foldl)

lemma jsRem_nonneg:
  assumes "0 \<le> a" "0 < n"
  shows "jsRem a n = a - n * of_int \<lfloor>a / n\<rfloor>"
  using assms by (simp add: jsRem_def jsTrunc_def)

lemma jsRem_int:
  assumes "0 \<le> a" "0 < n"
  shows "jsRem (of_int a) (of_int n) = of_int (a mod n)"
proof -
  have "\<lfloor>real_of_int a / real_of_int n\<rfloor> = a div n"
    by (simp add: floor_divide_of_int_eq)
  moreover have "a mod n = a - n * (a div n)"
    by (simp add: minus_mult_div_eq_mod)
  ultimately show ?thesis
    using assms by (simp add: jsRem_nonneg)
qed

lemma flowContribution_duration:
  assumes "useFlow p" "flowStartDate p = Some fs" "flowEndDate p = Some fe"
    and "revenueMethod p \<noteq> Some Milestone"
    and "monthIndex (parseYMD fs) \<le> monthIndex (parseYMD fe)"
  shows "flowContribution p (k div 12) (k mod 12) =
     (if monthIndex (parseYMD fs) \<le> k \<and> k \<le> monthIndex (parseYMD fe) then
        (if k = monthIndex (parseYMD fe)
         then toDouble
                (real_of_int \<lfloor>toDouble (flowAmount p
                    / of_int (monthIndex (parseYMD fe) - monthIndex (parseYMD fs) + 1))\<rfloor>
                 + jsRem (flowAmount p)
                     (of_int (monthIndex (parseYMD fe) - monthIndex (parseYMD fs) + 1)))
         else real_of_int \<lfloor>toDouble (flowAmount p
                  / of_int (monthIndex (parseYMD fe) - monthIndex (parseYMD fs) + 1))\<rfloor>)
      else 0)"
  using assms by (simp add: flowContribution_def Let_def monthIndex_def plusAssign_zero)

lemma sum_list_const_upto:
  assumes "\<And>k. i \<le> k \<Longrightarrow> k \<le> j \<Longrightarrow> f k = (c::real)"
  shows "sum_list (map f [i..j]) = of_int (if j < i then 0 else j - i + 1) * c"
proof -
  have eq: "map f [i..j] = map (\<lambda>_. c) [i..j]"
    using assms by (intro map_cong) auto
  have "sum_list (map f [i..j]) = sum_list (map (\<lambda>_. c) [i..j])"
    by (simp only: eq)
  also have "\<dots> = of_nat (length [i..j]) * c"
    by (simp add: sum_list_triv)
  also have "of_nat (length [i..j]) = (of_int (if j < i then 0 else j - i + 1) :: real)"
    by (cases "j < i") simp_all
  finally show ?thesis .
qed

lemma div_plus_mod_le:
  assumes "0 \<le> a" "0 < (n::int)"
  shows "0 \<le> a div n + a mod n" "a div n + a mod n \<le> a"
proof -
  have q: "0 \<le> a div n" and r: "0 \<le> a mod n"
    using assms by (simp_all add: pos_imp_zdiv_nonneg_iff)
  from q r show "0 \<le> a div n + a mod n"
    by simp
  have "1 * (a div n) \<le> n * (a div n)"
    using assms(2) q by (intro mult_right_mono) simp_all
  moreover have "n * (a div n) + a mod n = a"
    by simp
  ultimately show "a div n + a mod n \<le> a"
    by linarith
qed

lemmas model_eval = flowContribution_def stockContribution_def timeChargeContribution_def
  getMonthlyRevenue_def orElse_def jsRem_def jsTrunc_def plusAssign_def toDouble_zero
  toDouble_numeral toDouble_one


text \<open>
  C1 (as amended). For a project that uses Flow with the Duration method, has both flow
  dates, has the month of \<open>flowEndDate\<close> not before the month of \<open>flowStartDate\<close>, and
  has a flow amount that is a whole number from 0 to below \<open>2 ^ 53\<close>: the flow
  contributions of \<^verbatim>\<open>getMonthlyRevenue\<close> over the calendar months from the start month to
  the end month add up to exactly \<open>flowAmount\<close>. With \<open>n\<close> the number of these months,
  every month before the last gets \<open>floor (flowAmount / n)\<close>, which is \<open>a div n\<close>, and
  the last month gets that plus \<open>flowAmount mod n\<close>.
\<close>

theorem C1_duration_exact:
  assumes "useFlow p" and "flowStartDate p = Some fs" and "flowEndDate p = Some fe"
    and "revenueMethod p = Some Duration"
    and "si = monthIndex (parseYMD fs)" and "ei = monthIndex (parseYMD fe)"
    and "si \<le> ei"
    and "flowAmount p = of_int a" and "0 \<le> a" and "a < 2 ^ 53"
    and "n = ei - si + 1"
  shows "sum_list (map (\<lambda>k. flowContribution p (k div 12) (k mod 12)) [si..ei]) = flowAmount p
    \<and> (\<forall>k. si \<le> k \<and> k < ei \<longrightarrow>
          flowContribution p (k div 12) (k mod 12) = of_int (a div n))
    \<and> flowContribution p (ei div 12) (ei mod 12) = of_int (a div n + a mod n)"
proof -
  let ?f = "\<lambda>k. flowContribution p (k div 12) (k mod 12)"
  let ?b = "real_of_int (a div n)"
  let ?l = "real_of_int (a div n + a mod n)"
  have n: "0 < n" using assms(7,11) by simp
  have base: "\<lfloor>toDouble (flowAmount p / of_int n)\<rfloor> = a div n"
    unfolding assms(8) using assms(9,10) n by (rule floor_toDouble_div)
  have rem: "jsRem (flowAmount p) (of_int n) = of_int (a mod n)"
    unfolding assms(8) using assms(9) n by (rule jsRem_int)
  have "0 \<le> a div n + a mod n" "a div n + a mod n < 2 ^ 53"
    using div_plus_mod_le [OF assms(9) n] assms(10) by simp_all
  then have "toDouble (of_int (a div n + a mod n)) = ?l"
    by (rule toDouble_whole)
  then have last_exact: "toDouble (?b + of_int (a mod n)) = ?l"
    by simp
  have ne: "revenueMethod p \<noteq> Some Milestone"
    using assms(4) by simp
  have le: "monthIndex (parseYMD fs) \<le> monthIndex (parseYMD fe)"
    using assms(5,6,7) by simp
  have nn: "monthIndex (parseYMD fe) - monthIndex (parseYMD fs) + 1 = n"
    using assms(5,6,11) by simp
  have month: "?f k = (if si \<le> k \<and> k \<le> ei then (if k = ei then ?l else ?b) else 0)" for k
    unfolding flowContribution_duration [OF assms(1-3) ne le] nn base rem last_exact
    by (simp only: assms(5,6))
  have inner: "\<forall>k. si \<le> k \<and> k < ei \<longrightarrow> ?f k = ?b"
    by (simp add: month)
  have last: "?f ei = ?l"
    using assms(7) by (simp add: month)
  have "[si..ei] = [si..ei - 1] @ [ei]"
    using assms(7) by (rule upto_rec2)
  then have "sum_list (map ?f [si..ei]) = sum_list (map ?f [si..ei - 1]) + ?f ei"
    by simp
  also have "sum_list (map ?f [si..ei - 1]) = of_int (if ei - 1 < si then 0 else ei - 1 - si + 1) * ?b"
    by (rule sum_list_const_upto) (simp add: month)
  also have "\<dots> = of_int (n - 1) * ?b"
    using assms(7,11) by auto
  finally have "sum_list (map ?f [si..ei]) = of_int (n - 1) * ?b + ?l"
    by (simp only: last)
  also have "\<dots> = of_int ((n - 1) * (a div n) + (a div n + a mod n))"
    by simp
  also have "(n - 1) * (a div n) + (a div n + a mod n) = a"
    by (simp add: algebra_simps)
  finally have "sum_list (map ?f [si..ei]) = flowAmount p"
    by (simp only: assms(8))
  with inner last show ?thesis by blast
qed


text \<open>
  The amount 1,000,001 over the seven months January to July 2025: six months of 142,857
  and a last month of 142,859.
\<close>

theorem C1_duration_exact_witness:
  "sum_list (map (\<lambda>k. flowContribution (durationProject 1000001 (2025, 7, 20)) (k div 12) (k mod 12))
     [24300..24306]) = 1000001
   \<and> flowContribution (durationProject 1000001 (2025, 7, 20)) 2025 0 = 142857
   \<and> flowContribution (durationProject 1000001 (2025, 7, 20)) 2025 6 = 142859"
proof -
  let ?p = "durationProject 1000001 (2025, 7, 20)"
  let ?f = "\<lambda>k. flowContribution ?p (k div 12) (k mod 12)"
  have s: "monthIndex (parseYMD (2025, 1, 1)) = 24300"
    and e: "monthIndex (parseYMD (2025, 7, 20)) = 24306"
    by (simp_all add: date_eval)
  have amount: "flowAmount ?p = 1000001"
    by (simp add: durationProject_def)
  have all: "sum_list (map ?f [24300..24306]) = flowAmount ?p
    \<and> (\<forall>k. 24300 \<le> k \<and> k < 24306 \<longrightarrow> ?f k = of_int (1000001 div 7))
    \<and> ?f 24306 = of_int (1000001 div 7 + 1000001 mod 7)"
    by (rule C1_duration_exact [where fs = "(2025, 1, 1)" and fe = "(2025, 7, 20)"])
       (simp_all add: durationProject_def exProject_def s e)
  from all have "sum_list (map ?f [24300..24306]) = 1000001"
    by (simp only: amount)
  moreover from all have "?f 24300 = of_int (1000001 div 7)"
    by (elim conjE allE [of _ 24300]) simp
  then have "flowContribution ?p 2025 0 = 142857"
    by simp
  moreover from all have "flowContribution ?p 2025 6 = 142859"
    by simp
  ultimately show ?thesis
    by simp
qed


text \<open>
  The claim as stated, for every flow amount, fails for amounts that are typed as digits
  but are too large for the doubles to divide exactly. For 20,000,000,000,000,000 over
  the three months January to March 2025 the quotient is rounded up to
  6,666,666,666,666,667 where the floor of the exact quotient is 6,666,666,666,666,666,
  and the three months add up to 3 more than the flow amount. For
  100,000,000,000,000,000 over the seven months January to July 2025 the months add up to
  8 more than the flow amount.
\<close>

theorem C1_large_amount_counterexample:
  "useFlow (durationProject 20000000000000000 (2025, 3, 20))
   \<and> flowStartDate (durationProject 20000000000000000 (2025, 3, 20)) = Some (2025, 1, 1)
   \<and> flowEndDate (durationProject 20000000000000000 (2025, 3, 20)) = Some (2025, 3, 20)
   \<and> revenueMethod (durationProject 20000000000000000 (2025, 3, 20)) = Some Duration
   \<and> monthIndex (parseYMD (2025, 1, 1)) = 24300
   \<and> monthIndex (parseYMD (2025, 3, 20)) = 24302
   \<and> flowAmount (durationProject 20000000000000000 (2025, 3, 20)) = 20000000000000000
   \<and> \<lfloor>20000000000000000 / (3::real)\<rfloor> = 6666666666666666
   \<and> map (\<lambda>k. flowContribution (durationProject 20000000000000000 (2025, 3, 20))
                 (k div 12) (k mod 12)) [24300..24302]
      = [6666666666666667, 6666666666666667, 6666666666666669]
   \<and> sum_list (map (\<lambda>k. flowContribution (durationProject 20000000000000000 (2025, 3, 20))
                      (k div 12) (k mod 12)) [24300..24302]) = 20000000000000003
   \<and> monthIndex (parseYMD (2025, 7, 20)) = 24306
   \<and> map (\<lambda>k. flowContribution (durationProject 100000000000000000 (2025, 7, 20))
                 (k div 12) (k mod 12)) [24300..24306]
      = [14285714285714286, 14285714285714286, 14285714285714286, 14285714285714286,
         14285714285714286, 14285714285714286, 14285714285714292]
   \<and> sum_list (map (\<lambda>k. flowContribution (durationProject 100000000000000000 (2025, 7, 20))
                      (k div 12) (k mod 12)) [24300..24306]) = 100000000000000008"
proof -
  have q3: "toDouble (20000000000000000 / 3) = 6666666666666667"
  proof -
    have "toDouble (20000000000000000 / 3)
        = pow2 (52 - 52) * of_int (roundEven ((20000000000000000 / 3) / pow2 (52 - 52)))"
      by (rule toDouble_eval) (simp_all add: pow2_def)
    also have "\<dots> = 6666666666666667"
      by (simp add: pow2_def roundEven_def Let_def)
    finally show ?thesis .
  qed
  have q7: "toDouble (100000000000000000 / 7) = 14285714285714286"
  proof -
    have "toDouble (100000000000000000 / 7)
        = pow2 (53 - 52) * of_int (roundEven ((100000000000000000 / 7) / pow2 (53 - 52)))"
      by (rule toDouble_eval) (simp_all add: pow2_def)
    also have "\<dots> = 14285714285714286"
      by (simp add: pow2_def roundEven_def Let_def)
    finally show ?thesis .
  qed
  have l7: "toDouble 14285714285714291 = 14285714285714292"
  proof -
    have "toDouble 14285714285714291
        = pow2 (53 - 52) * of_int (roundEven (14285714285714291 / pow2 (53 - 52)))"
      by (rule toDouble_eval) (simp_all add: pow2_def)
    also have "\<dots> = 14285714285714292"
      by (simp add: pow2_def roundEven_def Let_def)
    finally show ?thesis .
  qed
  show ?thesis
    by (simp add: durationProject_def exProject_def date_eval model_eval q3 q7 l7)
qed

section \<open>Flow revenue recognised by milestone\<close>

lemma flowContribution_milestone:
  assumes "useFlow p" "flowStartDate p = Some fs" "flowEndDate p = Some fe"
    and "revenueMethod p = Some Milestone"
    and "st = real_of_int \<lfloor>toDouble (flowAmount p
                * toDouble (orElse (flowStartRatio (billingConfig p)) 0 / 100))\<rfloor>"
  shows "flowContribution p y m =
     (if getFullYear (parseYMD fe) = y \<and> getMonth (parseYMD fe) = m
      then (if flowSplit (billingConfig p)
            then plusAssign
                   (if getFullYear (parseYMD fs) = y \<and> getMonth (parseYMD fs) = m then st else 0)
                   (toDouble (flowAmount p - st))
            else flowAmount p)
      else (if getFullYear (parseYMD fs) = y \<and> getMonth (parseYMD fs) = m
               \<and> flowSplit (billingConfig p)
            then st else 0))"
  using assms by (simp add: flowContribution_def Let_def plusAssign_zero)

lemma startAmount_bounds:
  assumes "0 \<le> a" "a < 2 ^ 53" "0 \<le> r" "r \<le> 100"
  shows "0 \<le> \<lfloor>toDouble (of_int a * toDouble (r / 100))\<rfloor>"
    and "\<lfloor>toDouble (of_int a * toDouble (r / 100))\<rfloor> \<le> a"
proof -
  let ?t = "toDouble (r / 100)"
  note t = toDouble_ratio [OF assms(3,4)]
  have a: "0 \<le> real_of_int a" "real_of_int a < 2 ^ 53"
  proof -
    show "0 \<le> real_of_int a" using assms(1) by simp
    have "real_of_int a < of_int (2 ^ 53)" using assms(2) by (simp only: of_int_less_iff)
    then show "real_of_int a < 2 ^ 53" by simp
  qed
  have x0: "0 \<le> of_int a * ?t"
    using a(1) t(1) by simp
  have "of_int a * ?t \<le> of_int a * 1"
    using a(1) t(2) by (intro mult_left_mono) simp_all
  then have x1: "of_int a * ?t \<le> of_int a"
    by simp
  have "0 \<le> toDouble (of_int a * ?t)"
    using x0 by (rule toDouble_nonneg)
  then show "0 \<le> \<lfloor>toDouble (of_int a * ?t)\<rfloor>"
    by simp
  have "toDouble (of_int a * ?t) \<le> of_int a"
    using x1 x0 a(2) by (intro toDouble_le_int) simp_all
  then show "\<lfloor>toDouble (of_int a * ?t)\<rfloor> \<le> a"
    by (simp add: floor_le_iff)
qed


text \<open>
  C2 (as amended). For a project that uses Flow with the Milestone method and has both
  flow dates, let \<open>r\<close> be the configured start ratio (0 when it is missing) and
  \<open>startAmount\<close> the floor of the product \<open>flowAmount * (r / 100)\<close> as the doubles compute
  it, quotient and product rounded. With split billing, a flow amount that is a whole
  number from 0 to below \<open>2 ^ 53\<close> and a ratio from 0 to 100, \<open>startAmount\<close> lies between
  0 and \<open>flowAmount\<close>, the month of the start date gets \<open>startAmount\<close> and the month of
  the end date gets \<open>flowAmount - startAmount\<close>, which add up to exactly \<open>flowAmount\<close>
  (when both dates fall into one month, that month gets the whole \<open>flowAmount\<close>). With
  split billing every other month gets nothing. Without split billing the month of the end
  date gets the whole \<open>flowAmount\<close> and every other month gets nothing.
\<close>

theorem C2_milestone_split:
  assumes "useFlow p" and "flowStartDate p = Some fs" and "flowEndDate p = Some fe"
    and "revenueMethod p = Some Milestone"
    and "s = parseYMD fs" and "e = parseYMD fe"
    and "r = orElse (flowStartRatio (billingConfig p)) 0"
    and "startAmount = \<lfloor>toDouble (flowAmount p * toDouble (r / 100))\<rfloor>"
  shows "(flowSplit (billingConfig p) \<longrightarrow>
            (flowAmount p = of_int a \<and> 0 \<le> a \<and> a < 2 ^ 53 \<and> 0 \<le> r \<and> r \<le> 100 \<longrightarrow>
               0 \<le> startAmount \<and> startAmount \<le> a
               \<and> ((getFullYear s, getMonth s) \<noteq> (getFullYear e, getMonth e) \<longrightarrow>
                    flowContribution p (getFullYear s) (getMonth s) = of_int startAmount
                    \<and> flowContribution p (getFullYear e) (getMonth e) = of_int (a - startAmount)
                    \<and> flowContribution p (getFullYear s) (getMonth s)
                       + flowContribution p (getFullYear e) (getMonth e) = flowAmount p)
               \<and> ((getFullYear s, getMonth s) = (getFullYear e, getMonth e) \<longrightarrow>
                    flowContribution p (getFullYear e) (getMonth e) = flowAmount p))
            \<and> (\<forall>y m. (y, m) \<noteq> (getFullYear s, getMonth s) \<and> (y, m) \<noteq> (getFullYear e, getMonth e)
                  \<longrightarrow> flowContribution p y m = 0))
       \<and> (\<not> flowSplit (billingConfig p) \<longrightarrow>
            flowContribution p (getFullYear e) (getMonth e) = flowAmount p
            \<and> (\<forall>y m. (y, m) \<noteq> (getFullYear e, getMonth e) \<longrightarrow> flowContribution p y m = 0))"
proof -
  let ?Ys = "getFullYear (parseYMD fs)" and ?Ms = "getMonth (parseYMD fs)"
  let ?Ye = "getFullYear (parseYMD fe)" and ?Me = "getMonth (parseYMD fe)"
  let ?st = "real_of_int \<lfloor>toDouble (flowAmount p
                * toDouble (orElse (flowStartRatio (billingConfig p)) 0 / 100))\<rfloor>"
  note month = flowContribution_milestone [OF assms(1-4) refl]
  have st: "?st = of_int startAmount"
    by (simp only: assms(7,8))
  have amounts: "0 \<le> startAmount \<and> startAmount \<le> a
      \<and> ((?Ys, ?Ms) \<noteq> (?Ye, ?Me) \<longrightarrow>
            flowContribution p ?Ys ?Ms = of_int startAmount
            \<and> flowContribution p ?Ye ?Me = of_int (a - startAmount)
            \<and> flowContribution p ?Ys ?Ms + flowContribution p ?Ye ?Me = flowAmount p)
      \<and> ((?Ys, ?Ms) = (?Ye, ?Me) \<longrightarrow> flowContribution p ?Ye ?Me = flowAmount p)"
    if split: "flowSplit (billingConfig p)"
      and a: "flowAmount p = of_int a" "0 \<le> a" "a < 2 ^ 53" and r: "0 \<le> r" "r \<le> 100"
  proof -
    have b: "0 \<le> startAmount" "startAmount \<le> a"
      using startAmount_bounds [OF a(2,3) r] by (simp_all only: assms(8) a(1))
    have "0 \<le> a - startAmount" "a - startAmount < 2 ^ 53"
      using b a(3) by simp_all
    then have "toDouble (of_int (a - startAmount)) = of_int (a - startAmount)"
      by (rule toDouble_whole)
    then have rest: "toDouble (flowAmount p - of_int startAmount) = of_int (a - startAmount)"
      by (simp add: a(1))
    have whole: "toDouble (of_int a) = of_int a"
      using a(2,3) by (rule toDouble_whole)
    have diff: "flowContribution p ?Ys ?Ms = of_int startAmount
        \<and> flowContribution p ?Ye ?Me = of_int (a - startAmount)
        \<and> flowContribution p ?Ys ?Ms + flowContribution p ?Ye ?Me = flowAmount p"
      if ne: "(?Ys, ?Ms) \<noteq> (?Ye, ?Me)"
    proof -
      have x: "flowContribution p ?Ys ?Ms = of_int startAmount"
        using split ne by (subst month) (auto simp: st)
      have y: "flowContribution p ?Ye ?Me = of_int (a - startAmount)"
        using split ne by (subst month) (auto simp: rest st plusAssign_zero)
      from x y show ?thesis by (simp add: a(1))
    qed
    have same: "flowContribution p ?Ye ?Me = flowAmount p" if eq: "(?Ys, ?Ms) = (?Ye, ?Me)"
    proof -
      have "flowContribution p ?Ye ?Me = plusAssign (of_int startAmount) (of_int (a - startAmount))"
        using split eq by (subst month) (auto simp: rest st)
      also have "\<dots> = of_int a"
        using whole by (simp add: plusAssign_def)
      finally show ?thesis by (simp only: a(1))
    qed
    from b diff same show ?thesis by blast
  qed
  have split_other: "flowContribution p y m = 0"
    if "(y, m) \<noteq> (?Ys, ?Ms)" "(y, m) \<noteq> (?Ye, ?Me)" for y m
    using that by (subst month) auto
  have lump_end: "flowContribution p ?Ye ?Me = flowAmount p"
    if "\<not> flowSplit (billingConfig p)"
    using that by (subst month) auto
  have lump_other: "flowContribution p y m = 0"
    if "\<not> flowSplit (billingConfig p)" "(y, m) \<noteq> (?Ye, ?Me)" for y m
    using that by (subst month) auto
  show ?thesis
    unfolding assms(5,6)
    using amounts split_other lump_end lump_other by blast
qed


text \<open>
  The seed project: 6,000,000 split 50/50 between January and June 2025, nothing in April.
\<close>

theorem C2_milestone_split_witness:
  "flowContribution exProject 2025 0 = 3000000
   \<and> flowContribution exProject 2025 5 = 3000000
   \<and> flowContribution exProject 2025 0 + flowContribution exProject 2025 5 = flowAmount exProject
   \<and> flowContribution exProject 2025 3 = 0"
proof -
  let ?s = "\<lparr>getFullYear = 2025, getMonth = 0, getDate = 1, getMillis = 0\<rparr>"
  let ?e = "\<lparr>getFullYear = 2025, getMonth = 5, getDate = 30, getMillis = 0\<rparr>"
  have half: "toDouble (50 / 100) = 1 / 2"
  proof -
    have "toDouble (50 / 100)
        = pow2 (- 1 - 52) * of_int (roundEven ((50 / 100) / pow2 (- 1 - 52)))"
      by (rule toDouble_eval) (simp_all add: pow2_def)
    also have "\<dots> = 1 / 2"
      by (simp add: pow2_def roundEven_def Let_def)
    finally show ?thesis .
  qed
  have a1: "useFlow exProject"
    and a2: "flowStartDate exProject = Some (2025, 1, 1)"
    and a3: "flowEndDate exProject = Some (2025, 6, 30)"
    and a4: "revenueMethod exProject = Some Milestone"
    and split: "flowSplit (billingConfig exProject)"
    and a7: "50 = orElse (flowStartRatio (billingConfig exProject)) 0"
    and amount: "flowAmount exProject = 6000000"
    by (simp_all add: exProject_def exBilling_def orElse_def)
  have "flowAmount exProject * toDouble (50 / 100) = 3000000"
    by (simp only: half amount)
  then have a8: "3000000 = \<lfloor>toDouble (flowAmount exProject * toDouble (50 / 100))\<rfloor>"
    by (simp add: toDouble_numeral)
  have a5: "?s = parseYMD (2025, 1, 1)" and a6: "?e = parseYMD (2025, 6, 30)"
    by (simp_all add: date_eval)
  note inst = C2_milestone_split [OF a1 a2 a3 a4 a5 a6 a7 a8, where a = 6000000]
  have whole: "flowAmount exProject = of_int 6000000 \<and> (0::int) \<le> 6000000
      \<and> (6000000::int) < 2 ^ 53 \<and> (0::real) \<le> 50 \<and> (50::real) \<le> 100"
    by (simp add: amount)
  from inst split whole
  have diff: "(getFullYear ?s, getMonth ?s) \<noteq> (getFullYear ?e, getMonth ?e) \<longrightarrow>
               flowContribution exProject (getFullYear ?s) (getMonth ?s) = of_int 3000000
               \<and> flowContribution exProject (getFullYear ?e) (getMonth ?e)
                   = of_int (6000000 - 3000000)
               \<and> flowContribution exProject (getFullYear ?s) (getMonth ?s)
                  + flowContribution exProject (getFullYear ?e) (getMonth ?e) = flowAmount exProject"
    and other: "\<forall>y m. (y, m) \<noteq> (getFullYear ?s, getMonth ?s) \<and> (y, m) \<noteq> (getFullYear ?e, getMonth ?e)
                  \<longrightarrow> flowContribution exProject y m = 0"
    by blast+
  from diff have "flowContribution exProject 2025 0 = 3000000
      \<and> flowContribution exProject 2025 5 = 3000000
      \<and> flowContribution exProject 2025 0 + flowContribution exProject 2025 5 = flowAmount exProject"
    by simp
  moreover from other have "flowContribution exProject 2025 3 = 0"
    by (elim allE [of _ 2025] allE [of _ 3]) simp
  ultimately show ?thesis
    by simp
qed


text \<open>
  The claim as stated fails in two ways. The start amount is the floor of a product of
  doubles, not of the exact product: for 6,000,000 at a ratio of 29 the quotient 29 / 100
  is rounded down, January 2025 gets 1,739,999 where the floor of the exact product is
  1,740,000, and June gets 4,260,001; at the ratio that the project form stores when 2,700
  is typed as the start amount of 6,000,000 (the double next to 0.045, which is below it)
  January gets 2,700 where the floor of the exact product is 2,699. And for amounts that are typed as digits but are too
  large for the doubles the months do not add up: for 100,000,000,000,000,000 at a ratio of
  7 the start month gets 7,000,000,000,000,001 and the end month the rounded difference
  93,000,000,000,000,000, which is 1 too many; for 834,062,487,105,458,560 at a ratio of 30
  the two months add up to 64 less than the flow amount, and to 128 less when the sum is
  rounded to a double itself.
\<close>

theorem C2_rounded_amount_counterexample:
  "useFlow (milestoneProject 6000000 29) \<and> revenueMethod (milestoneProject 6000000 29) = Some Milestone
   \<and> flowSplit (billingConfig (milestoneProject 6000000 29))
   \<and> flowStartDate (milestoneProject 6000000 29) = Some (2025, 1, 1)
   \<and> flowEndDate (milestoneProject 6000000 29) = Some (2025, 6, 30)
   \<and> flowAmount (milestoneProject 6000000 29) = 6000000
   \<and> \<lfloor>6000000 * 29 / (100::real)\<rfloor> = 1740000
   \<and> flowContribution (milestoneProject 6000000 29) 2025 0 = 1739999
   \<and> flowContribution (milestoneProject 6000000 29) 2025 5 = 4260001
   \<and> \<lfloor>6000000 * (3242591731706757 / 72057594037927936) / (100::real)\<rfloor> = 2699
   \<and> flowContribution (milestoneProject 6000000 (3242591731706757 / 72057594037927936)) 2025 0 = 2700
   \<and> flowContribution (milestoneProject 6000000 (3242591731706757 / 72057594037927936)) 2025 5 = 5997300
   \<and> flowContribution (milestoneProject 100000000000000000 7) 2025 0 = 7000000000000001
   \<and> flowContribution (milestoneProject 100000000000000000 7) 2025 5 = 93000000000000000
   \<and> flowContribution (milestoneProject 100000000000000000 7) 2025 0
       + flowContribution (milestoneProject 100000000000000000 7) 2025 5 = flowAmount (milestoneProject 100000000000000000 7) + 1
   \<and> flowContribution (milestoneProject 834062487105458560 30) 2025 0 = 250218746131637568
   \<and> flowContribution (milestoneProject 834062487105458560 30) 2025 5 = 583843740973820928
   \<and> flowContribution (milestoneProject 834062487105458560 30) 2025 0
       + flowContribution (milestoneProject 834062487105458560 30) 2025 5
       = flowAmount (milestoneProject 834062487105458560 30) - 64
   \<and> toDouble (flowContribution (milestoneProject 834062487105458560 30) 2025 0
                 + flowContribution (milestoneProject 834062487105458560 30) 2025 5)
       = flowAmount (milestoneProject 834062487105458560 30) - 128"
proof -
  have tP: "toDouble (29 / 100) = 5224175567749775 / 18014398509481984"
  proof -
    have "toDouble (29 / 100)
        = pow2 (- 2 - 52) * of_int (roundEven ((29 / 100) / pow2 (- 2 - 52)))"
      by (rule toDouble_eval) (simp_all add: pow2_def)
    also have "\<dots> = 5224175567749775 / 18014398509481984"
      by (simp add: pow2_def roundEven_def Let_def)
    finally show ?thesis .
  qed
  have sP: "toDouble (6000000 * (5224175567749775 / 18014398509481984)) = 7473243095039999 / 4294967296"
  proof -
    have "toDouble (6000000 * (5224175567749775 / 18014398509481984))
        = pow2 (20 - 52) * of_int (roundEven ((6000000 * (5224175567749775 / 18014398509481984)) / pow2 (20 - 52)))"
      by (rule toDouble_eval) (simp_all add: pow2_def)
    also have "\<dots> = 7473243095039999 / 4294967296"
      by (simp add: pow2_def roundEven_def Let_def)
    finally show ?thesis .
  qed
  have tQ: "toDouble (7 / 100) = 1261007895663739 / 18014398509481984"
  proof -
    have "toDouble (7 / 100)
        = pow2 (- 4 - 52) * of_int (roundEven ((7 / 100) / pow2 (- 4 - 52)))"
      by (rule toDouble_eval) (simp_all add: pow2_def)
    also have "\<dots> = 1261007895663739 / 18014398509481984"
      by (simp add: pow2_def roundEven_def Let_def)
    finally show ?thesis .
  qed
  have sQ: "toDouble (100000000000000000 * (1261007895663739 / 18014398509481984)) = 7000000000000001"
  proof -
    have "toDouble (100000000000000000 * (1261007895663739 / 18014398509481984))
        = pow2 (52 - 52) * of_int (roundEven ((100000000000000000 * (1261007895663739 / 18014398509481984)) / pow2 (52 - 52)))"
      by (rule toDouble_eval) (simp_all add: pow2_def)
    also have "\<dots> = 7000000000000001"
      by (simp add: pow2_def roundEven_def Let_def)
    finally show ?thesis .
  qed
  have eQ: "toDouble (92999999999999999) = 93000000000000000"
  proof -
    have "toDouble (92999999999999999)
        = pow2 (56 - 52) * of_int (roundEven ((92999999999999999) / pow2 (56 - 52)))"
      by (rule toDouble_eval) (simp_all add: pow2_def)
    also have "\<dots> = 93000000000000000"
      by (simp add: pow2_def roundEven_def Let_def)
    finally show ?thesis .
  qed
  have tR: "toDouble (3 / 10) = 5404319552844595 / 18014398509481984"
  proof -
    have "toDouble (3 / 10)
        = pow2 (- 2 - 52) * of_int (roundEven ((3 / 10) / pow2 (- 2 - 52)))"
      by (rule toDouble_eval) (simp_all add: pow2_def)
    also have "\<dots> = 5404319552844595 / 18014398509481984"
      by (simp add: pow2_def roundEven_def Let_def)
    finally show ?thesis .
  qed
  have sR: "toDouble (834062487105458560 * (5404319552844595 / 18014398509481984)) = 250218746131637568"
  proof -
    have "toDouble (834062487105458560 * (5404319552844595 / 18014398509481984))
        = pow2 (57 - 52) * of_int (roundEven ((834062487105458560 * (5404319552844595 / 18014398509481984)) / pow2 (57 - 52)))"
      by (rule toDouble_eval) (simp_all add: pow2_def)
    also have "\<dots> = 250218746131637568"
      by (simp add: pow2_def roundEven_def Let_def)
    finally show ?thesis .
  qed
  have eR: "toDouble (583843740973820992) = 583843740973820928"
  proof -
    have "toDouble (583843740973820992)
        = pow2 (59 - 52) * of_int (roundEven ((583843740973820992) / pow2 (59 - 52)))"
      by (rule toDouble_eval) (simp_all add: pow2_def)
    also have "\<dots> = 583843740973820928"
      by (simp add: pow2_def roundEven_def Let_def)
    finally show ?thesis .
  qed
  have uR: "toDouble (834062487105458496) = 834062487105458432"
  proof -
    have "toDouble (834062487105458496)
        = pow2 (59 - 52) * of_int (roundEven ((834062487105458496) / pow2 (59 - 52)))"
      by (rule toDouble_eval) (simp_all add: pow2_def)
    also have "\<dots> = 834062487105458432"
      by (simp add: pow2_def roundEven_def Let_def)
    finally show ?thesis .
  qed
  have pP: "useFlow (milestoneProject 6000000 29)" "flowStartDate (milestoneProject 6000000 29) = Some (2025, 1, 1)"
    "flowEndDate (milestoneProject 6000000 29) = Some (2025, 6, 30)"
    "revenueMethod (milestoneProject 6000000 29) = Some Milestone"
    "flowSplit (billingConfig (milestoneProject 6000000 29))"
    "flowAmount (milestoneProject 6000000 29) = 6000000"
    by (simp_all add: milestoneProject_def exProject_def exBilling_def)
  have "flowAmount (milestoneProject 6000000 29)
          * toDouble (orElse (flowStartRatio (billingConfig (milestoneProject 6000000 29))) 0 / 100)
      = 6000000 * (5224175567749775 / 18014398509481984)"
    by (simp add: milestoneProject_def exProject_def exBilling_def orElse_def tP)
  then have xP: "toDouble (flowAmount (milestoneProject 6000000 29)
          * toDouble (orElse (flowStartRatio (billingConfig (milestoneProject 6000000 29))) 0 / 100))
      = 7473243095039999 / 4294967296"
    by (simp only: sP)
  have stP: "1739999 = real_of_int \<lfloor>toDouble (flowAmount (milestoneProject 6000000 29)
          * toDouble (orElse (flowStartRatio (billingConfig (milestoneProject 6000000 29))) 0 / 100))\<rfloor>"
    unfolding xP by simp
  note mP = flowContribution_milestone [OF pP(1-4) stP]
  have vP: "flowContribution (milestoneProject 6000000 29) 2025 0 = 1739999"
    "flowContribution (milestoneProject 6000000 29) 2025 5 = 4260001"
    unfolding mP
    by (simp_all add: pP date_eval plusAssign_def toDouble_numeral)
  have pQ: "useFlow (milestoneProject 100000000000000000 7)" "flowStartDate (milestoneProject 100000000000000000 7) = Some (2025, 1, 1)"
    "flowEndDate (milestoneProject 100000000000000000 7) = Some (2025, 6, 30)"
    "revenueMethod (milestoneProject 100000000000000000 7) = Some Milestone"
    "flowSplit (billingConfig (milestoneProject 100000000000000000 7))"
    "flowAmount (milestoneProject 100000000000000000 7) = 100000000000000000"
    by (simp_all add: milestoneProject_def exProject_def exBilling_def)
  have "flowAmount (milestoneProject 100000000000000000 7)
          * toDouble (orElse (flowStartRatio (billingConfig (milestoneProject 100000000000000000 7))) 0 / 100)
      = 100000000000000000 * (1261007895663739 / 18014398509481984)"
    by (simp add: milestoneProject_def exProject_def exBilling_def orElse_def tQ)
  then have xQ: "toDouble (flowAmount (milestoneProject 100000000000000000 7)
          * toDouble (orElse (flowStartRatio (billingConfig (milestoneProject 100000000000000000 7))) 0 / 100))
      = 7000000000000001"
    by (simp only: sQ)
  have stQ: "7000000000000001 = real_of_int \<lfloor>toDouble (flowAmount (milestoneProject 100000000000000000 7)
          * toDouble (orElse (flowStartRatio (billingConfig (milestoneProject 100000000000000000 7))) 0 / 100))\<rfloor>"
    unfolding xQ by simp
  note mQ = flowContribution_milestone [OF pQ(1-4) stQ]
  have vQ: "flowContribution (milestoneProject 100000000000000000 7) 2025 0 = 7000000000000001"
    "flowContribution (milestoneProject 100000000000000000 7) 2025 5 = 93000000000000000"
    unfolding mQ
    by (simp_all add: pQ date_eval plusAssign_def toDouble_numeral eQ)
  have pR: "useFlow (milestoneProject 834062487105458560 30)" "flowStartDate (milestoneProject 834062487105458560 30) = Some (2025, 1, 1)"
    "flowEndDate (milestoneProject 834062487105458560 30) = Some (2025, 6, 30)"
    "revenueMethod (milestoneProject 834062487105458560 30) = Some Milestone"
    "flowSplit (billingConfig (milestoneProject 834062487105458560 30))"
    "flowAmount (milestoneProject 834062487105458560 30) = 834062487105458560"
    by (simp_all add: milestoneProject_def exProject_def exBilling_def)
  have "flowAmount (milestoneProject 834062487105458560 30)
          * toDouble (orElse (flowStartRatio (billingConfig (milestoneProject 834062487105458560 30))) 0 / 100)
      = 834062487105458560 * (5404319552844595 / 18014398509481984)"
    by (simp add: milestoneProject_def exProject_def exBilling_def orElse_def tR)
  then have xR: "toDouble (flowAmount (milestoneProject 834062487105458560 30)
          * toDouble (orElse (flowStartRatio (billingConfig (milestoneProject 834062487105458560 30))) 0 / 100))
      = 250218746131637568"
    by (simp only: sR)
  have stR: "250218746131637568 = real_of_int \<lfloor>toDouble (flowAmount (milestoneProject 834062487105458560 30)
          * toDouble (orElse (flowStartRatio (billingConfig (milestoneProject 834062487105458560 30))) 0 / 100))\<rfloor>"
    unfolding xR by simp
  note mR = flowContribution_milestone [OF pR(1-4) stR]
  have vR: "flowContribution (milestoneProject 834062487105458560 30) 2025 0 = 250218746131637568"
    "flowContribution (milestoneProject 834062487105458560 30) 2025 5 = 583843740973820928"
    unfolding mR
    by (simp_all add: pR date_eval plusAssign_def toDouble_numeral eR)
  have tF: "toDouble (3242591731706757 / 7205759403792793600) = 4150517416584649 / 9223372036854775808"
  proof -
    have "toDouble (3242591731706757 / 7205759403792793600)
        = pow2 (- 12 - 52) * of_int (roundEven ((3242591731706757 / 7205759403792793600) / pow2 (- 12 - 52)))"
      by (rule toDouble_eval) (simp_all add: pow2_def)
    also have "\<dots> = 4150517416584649 / 9223372036854775808"
      by (simp add: pow2_def roundEven_def Let_def)
    finally show ?thesis .
  qed
  have sF: "toDouble (6000000 * (4150517416584649 / 9223372036854775808)) = 2700"
  proof -
    have "toDouble (6000000 * (4150517416584649 / 9223372036854775808))
        = pow2 (11 - 52) * of_int (roundEven ((6000000 * (4150517416584649 / 9223372036854775808)) / pow2 (11 - 52)))"
      by (rule toDouble_eval) (simp_all add: pow2_def)
    also have "\<dots> = 2700"
      by (simp add: pow2_def roundEven_def Let_def)
    finally show ?thesis .
  qed
  have pF: "useFlow (milestoneProject 6000000 (3242591731706757 / 72057594037927936))"
    "flowStartDate (milestoneProject 6000000 (3242591731706757 / 72057594037927936)) = Some (2025, 1, 1)"
    "flowEndDate (milestoneProject 6000000 (3242591731706757 / 72057594037927936)) = Some (2025, 6, 30)"
    "revenueMethod (milestoneProject 6000000 (3242591731706757 / 72057594037927936)) = Some Milestone"
    "flowSplit (billingConfig (milestoneProject 6000000 (3242591731706757 / 72057594037927936)))"
    "flowAmount (milestoneProject 6000000 (3242591731706757 / 72057594037927936)) = 6000000"
    by (simp_all add: milestoneProject_def exProject_def exBilling_def)
  have "flowAmount (milestoneProject 6000000 (3242591731706757 / 72057594037927936))
          * toDouble (orElse (flowStartRatio (billingConfig (milestoneProject 6000000 (3242591731706757 / 72057594037927936)))) 0 / 100)
      = 6000000 * (4150517416584649 / 9223372036854775808)"
    by (simp add: milestoneProject_def exProject_def exBilling_def orElse_def tF)
  then have xF: "toDouble (flowAmount (milestoneProject 6000000 (3242591731706757 / 72057594037927936))
          * toDouble (orElse (flowStartRatio (billingConfig (milestoneProject 6000000 (3242591731706757 / 72057594037927936)))) 0 / 100))
      = 2700"
    by (simp only: sF)
  have stF: "2700 = real_of_int \<lfloor>toDouble (flowAmount (milestoneProject 6000000 (3242591731706757 / 72057594037927936))
          * toDouble (orElse (flowStartRatio (billingConfig (milestoneProject 6000000 (3242591731706757 / 72057594037927936)))) 0 / 100))\<rfloor>"
    unfolding xF by simp
  note mF = flowContribution_milestone [OF pF(1-4) stF]
  have vF: "flowContribution (milestoneProject 6000000 (3242591731706757 / 72057594037927936)) 2025 0 = 2700"
    "flowContribution (milestoneProject 6000000 (3242591731706757 / 72057594037927936)) 2025 5 = 5997300"
    unfolding mF
    by (simp_all add: pF date_eval plusAssign_def toDouble_numeral)
  have flF: "\<lfloor>6000000 * (3242591731706757 / 72057594037927936) / (100::real)\<rfloor> = 2699"
    by simp
  have fl: "\<lfloor>6000000 * 29 / (100::real)\<rfloor> = 1740000"
    by simp
  show ?thesis
    using flF by (simp add: pP pQ pR vP vQ vR vF uR fl)
qed

section \<open>Payment dates\<close>

lemma mkDate_millis: "(mkDate y m d)\<lparr>getMillis := 0\<rparr> = mkDate y m d"
  by (simp add: mkDate_def split: prod.splits)

lemma mkDate_in_range:
  assumes "1 \<le> d" "d \<le> daysOfIndex (y * 12 + m)"
  shows "mkDate y m d = \<lparr>getFullYear = (y * 12 + m) div 12, getMonth = (y * 12 + m) mod 12,
                    getDate = d, getMillis = 0\<rparr>"
  using assms by (simp add: mkDate_def normaliseDay_in_range)

lemma mkDate_over:
  assumes "daysOfIndex (y * 12 + m) < d" "d \<le> daysOfIndex (y * 12 + m) + 28"
  shows "mkDate y m d = \<lparr>getFullYear = (y * 12 + m + 1) div 12,
                    getMonth = (y * 12 + m + 1) mod 12,
                    getDate = d - daysOfIndex (y * 12 + m), getMillis = 0\<rparr>"
  using assms by (simp add: mkDate_def normaliseDay_over)


text \<open>
  C8. \<^verbatim>\<open>getPaymentDate year month delay day\<close> moves to the calendar month
  \<open>k = year * 12 + month + delay\<close>, that is \<open>delay\<close> months after \<open>(year, month)\<close>. For
  the pay day 99 it returns the last calendar day of that month. For any other pay day it
  returns what \<^verbatim>\<open>new Date\<close> makes of that day of the shifted month: the day itself when the
  month has it, and, since nothing clamps the day to the length of the month, a day of the
  following month when the pay day exceeds the length of the month (by up to 28 days).
\<close>

theorem C8_payment_date:
  assumes "k = year * 12 + month + delay"
  shows "(dayV = 99 \<longrightarrow>
            getPaymentDate year month delay dayV =
              \<lparr>getFullYear = k div 12, getMonth = k mod 12,
               getDate = daysInMonth (k div 12) (k mod 12), getMillis = 0\<rparr>)
       \<and> (dayV \<noteq> 99 \<longrightarrow>
            getPaymentDate year month delay dayV = mkDate (k div 12) (k mod 12) dayV)
       \<and> (dayV \<noteq> 99 \<and> 1 \<le> dayV \<and> dayV \<le> daysInMonth (k div 12) (k mod 12) \<longrightarrow>
            getPaymentDate year month delay dayV =
              \<lparr>getFullYear = k div 12, getMonth = k mod 12, getDate = dayV, getMillis = 0\<rparr>)
       \<and> (dayV \<noteq> 99 \<and> daysInMonth (k div 12) (k mod 12) < dayV
            \<and> dayV \<le> daysInMonth (k div 12) (k mod 12) + 28 \<longrightarrow>
            getPaymentDate year month delay dayV =
              \<lparr>getFullYear = (k + 1) div 12, getMonth = (k + 1) mod 12,
               getDate = dayV - daysInMonth (k div 12) (k mod 12), getMillis = 0\<rparr>)"
proof -
  have target: "mkDate year (month + delay) 1 =
      \<lparr>getFullYear = k div 12, getMonth = k mod 12, getDate = 1, getMillis = 0\<rparr>"
    by (simp add: mkDate_first assms add.assoc)
  have idx: "k div 12 * 12 + k mod 12 = k"
    by simp
  have last: "mkDate (k div 12) (k mod 12 + 1) 0 =
      \<lparr>getFullYear = k div 12, getMonth = k mod 12,
       getDate = daysInMonth (k div 12) (k mod 12), getMillis = 0\<rparr>"
    by (simp only: mkDate_last idx daysOfIndex_def)
  have other: "getPaymentDate year month delay dayV = mkDate (k div 12) (k mod 12) dayV"
    if "dayV \<noteq> 99"
    using that by (simp add: getPaymentDate_def target setDate_def mkDate_millis)
  have inr: "mkDate (k div 12) (k mod 12) dayV =
      \<lparr>getFullYear = k div 12, getMonth = k mod 12, getDate = dayV, getMillis = 0\<rparr>"
    if "1 \<le> dayV" "dayV \<le> daysInMonth (k div 12) (k mod 12)"
    using that mkDate_in_range [of dayV "k div 12" "k mod 12"]
    by (simp only: idx daysOfIndex_def)
  have over: "mkDate (k div 12) (k mod 12) dayV =
      \<lparr>getFullYear = (k + 1) div 12, getMonth = (k + 1) mod 12,
       getDate = dayV - daysInMonth (k div 12) (k mod 12), getMillis = 0\<rparr>"
    if "daysInMonth (k div 12) (k mod 12) < dayV"
       "dayV \<le> daysInMonth (k div 12) (k mod 12) + 28"
    using that mkDate_over [of "k div 12" "k mod 12" dayV]
    by (simp only: idx daysOfIndex_def)
  have "dayV = 99 \<longrightarrow> getPaymentDate year month delay dayV =
              \<lparr>getFullYear = k div 12, getMonth = k mod 12,
               getDate = daysInMonth (k div 12) (k mod 12), getMillis = 0\<rparr>"
    by (simp add: getPaymentDate_def target last)
  with other inr over show ?thesis
    by simp
qed


text \<open>
  December 2025 with a delay of two months is February 2026: pay day 99 gives the 28th,
  pay day 25 the 25th, and pay day 31 is not clamped but lands on 3 March 2026.
\<close>

theorem C8_payment_date_witness:
  "getPaymentDate 2025 11 2 99 = \<lparr>getFullYear = 2026, getMonth = 1, getDate = 28, getMillis = 0\<rparr>
   \<and> getPaymentDate 2025 11 2 25 = \<lparr>getFullYear = 2026, getMonth = 1, getDate = 25, getMillis = 0\<rparr>
   \<and> getPaymentDate 2025 11 2 31 = \<lparr>getFullYear = 2026, getMonth = 2, getDate = 3, getMillis = 0\<rparr>"
  using C8_payment_date [of 24313 2025 11 2 99] C8_payment_date [of 24313 2025 11 2 25]
    C8_payment_date [of 24313 2025 11 2 31]
  by (simp add: daysInMonth_def leapYear_def date_eval)

section \<open>References to employees that are not in the collection\<close>

text \<open>
  An assignment or a work log is known when \<^verbatim>\<open>employees.find\<close> finds its employee.
\<close>

definition knownAssignment :: "Employee list \<Rightarrow> Assignment \<Rightarrow> bool" where
  "knownAssignment employees assign = (findEmployee employees (employeeId assign) \<noteq> None)"

definition knownWorkLog :: "Employee list \<Rightarrow> WorkLog \<Rightarrow> bool" where
  "knownWorkLog employees wl = (findEmployee employees (log_employeeId wl) \<noteq> None)"


lemma foldl_addAssignment_known:
  "foldl (addAssignment employees year month) c (filter (knownAssignment employees) xs)
   = foldl (addAssignment employees year month) c xs"
  by (induction xs arbitrary: c) (auto simp: knownAssignment_def addAssignment_def)

lemma foldl_addWorkLog_known:
  "foldl (addWorkLog employees year month) c (filter (knownWorkLog employees) xs)
   = foldl (addWorkLog employees year month) c xs"
  by (induction xs arbitrary: c) (auto simp: knownWorkLog_def addWorkLog_def)

lemma filter_swap: "filter P (filter Q xs) = filter Q (filter P xs)"
  by (induction xs) auto


text \<open>
  C9. An assignment or a work log whose employee id matches no employee of the collection
  adds nothing to the cost: the accumulation step leaves the cost as it is, and removing
  all such assignments from the project, or all such work logs from the collection, changes
  neither \<^verbatim>\<open>getProjectMonthlyCost\<close> nor \<^verbatim>\<open>getProjectActualCost\<close>. Both functions have a
  value for every input: the source has no throwing path here, and the model has no error
  result.
\<close>

theorem C9_dangling_employee_skipped:
  "getProjectMonthlyCost
     (project\<lparr>assignments := filter (knownAssignment employees) (assignments project)\<rparr>)
     employees year month
   = getProjectMonthlyCost project employees year month
   \<and> getProjectActualCost now project employees (filter (knownWorkLog employees) workLogs)
       year month
     = getProjectActualCost now project employees workLogs year month
   \<and> (\<not> knownAssignment employees assign \<longrightarrow>
        addAssignment employees year month c assign = c)
   \<and> (\<not> knownWorkLog employees wl \<longrightarrow> addWorkLog employees year month c wl = c)"
proof -
  have "getProjectMonthlyCost
     (project\<lparr>assignments := filter (knownAssignment employees) (assignments project)\<rparr>)
     employees year month
   = getProjectMonthlyCost project employees year month"
    unfolding getProjectMonthlyCost_def by (simp add: foldl_addAssignment_known cong: if_cong)
  moreover have "filter (targetLog now project year month) (filter (knownWorkLog employees) workLogs)
      = filter (knownWorkLog employees) (filter (targetLog now project year month) workLogs)"
    by (rule filter_swap)
  then have "getProjectActualCost now project employees (filter (knownWorkLog employees) workLogs)
       year month
     = getProjectActualCost now project employees workLogs year month"
    by (simp only: getProjectActualCost_def Let_def foldl_addWorkLog_known)
  moreover have "\<not> knownAssignment employees assign \<longrightarrow>
        addAssignment employees year month c assign = c"
    by (simp add: knownAssignment_def addAssignment_def)
  moreover have "\<not> knownWorkLog employees wl \<longrightarrow> addWorkLog employees year month c wl = c"
    by (simp add: knownWorkLog_def addWorkLog_def)
  ultimately show ?thesis
    by blast
qed

lemmas cost_eval = getProjectMonthlyCost_def getProjectActualCost_def addAssignment_def
  addWorkLog_def targetLog_def findEmployee_def getEmployeeMonthlyData_def parseLocalDate_def
  knownAssignment_def knownWorkLog_def


text \<open>
  The seed project with its assignment to the unknown employee 9, and the January work
  logs with the log of the unknown employee 9: the costs are those of the known entries.
\<close>

theorem C9_dangling_employee_skipped_witness:
  "filter (knownAssignment exEmployees) (assignments exProject)
     = [\<lparr>employeeId = ''1'', utilizationRate = 50\<rparr>]
   \<and> getProjectMonthlyCost exProject exEmployees 2025 0 = 300000
   \<and> getProjectMonthlyCost
        (exProject\<lparr>assignments := [\<lparr>employeeId = ''1'', utilizationRate = 50\<rparr>]\<rparr>)
        exEmployees 2025 0 = 300000
   \<and> getProjectActualCost exNow exProject exEmployees exWorkLogs 2025 0 = 190000
   \<and> getProjectActualCost exNow exProject exEmployees
        (filter (knownWorkLog exEmployees) exWorkLogs) 2025 0 = 190000"
proof -
  have known: "filter (knownAssignment exEmployees) (assignments exProject)
     = [\<lparr>employeeId = ''1'', utilizationRate = 50\<rparr>]"
    by (simp add: exProject_def exEmployees_def knownAssignment_def findEmployee_def)
  have plan: "getProjectMonthlyCost exProject exEmployees 2025 0 = 300000"
    by (simp add: exProject_def exEmployees_def cost_eval date_eval)
  have actual: "getProjectActualCost exNow exProject exEmployees exWorkLogs 2025 0 = 190000"
    by (simp add: exProject_def exEmployees_def exWorkLogs_def cost_eval date_eval)
  note inst = C9_dangling_employee_skipped [of exEmployees exProject 2025 0 exNow exWorkLogs]
  from inst plan have "getProjectMonthlyCost
        (exProject\<lparr>assignments := [\<lparr>employeeId = ''1'', utilizationRate = 50\<rparr>]\<rparr>)
        exEmployees 2025 0 = 300000"
    by (simp only: known)
  moreover from inst actual have "getProjectActualCost exNow exProject exEmployees
        (filter (knownWorkLog exEmployees) exWorkLogs) 2025 0 = 190000"
    by simp
  ultimately show ?thesis
    using known plan actual by simp
qed

section \<open>The projection loop\<close>

lemma projectionLoop_unfold:
  "i < 12 \<Longrightarrow> projectionLoop body i c data
     = projectionLoop body (i + 1) (cashBalance (body i c)) (data @ [body i c])"
  by (subst projectionLoop.simps) (simp add: Let_def)

lemma projectionLoop_exit: "\<not> i < 12 \<Longrightarrow> projectionLoop body i c data = data"
  by (subst projectionLoop.simps) simp

lemma projectionLoop_append:
  "projectionLoop body i c data = data @ projectionLoop body i c []"
proof (induction "nat (12 - i)" arbitrary: i c data)
  case 0
  then have "\<not> i < 12" by simp
  then show ?case by (simp add: projectionLoop_exit)
next
  case (Suc n)
  then have lt: "i < 12" by linarith
  have n: "n = nat (12 - (i + 1))"
    using Suc.hyps(2) by linarith
  let ?r = "body i c"
  have "projectionLoop body i c data
      = (data @ [?r]) @ projectionLoop body (i + 1) (cashBalance ?r) []"
    using Suc.hyps(1) [OF n, of "cashBalance ?r" "data @ [?r]"]
    by (simp only: projectionLoop_unfold [OF lt])
  moreover have "projectionLoop body i c []
      = [?r] @ projectionLoop body (i + 1) (cashBalance ?r) []"
    using Suc.hyps(1) [OF n, of "cashBalance ?r" "[?r]"]
    by (simp only: projectionLoop_unfold [OF lt] append_Nil)
  ultimately show ?case by simp
qed

lemma projectionLoop_step:
  "i < 12 \<Longrightarrow> projectionLoop body i c []
     = body i c # projectionLoop body (i + 1) (cashBalance (body i c)) []"
  using projectionLoop_append [of body "i + 1" "cashBalance (body i c)" "[body i c]"]
  by (simp add: projectionLoop_unfold)



lemma projectionLoop_nth:
  "0 \<le> i \<Longrightarrow> i \<le> 12 \<Longrightarrow> k < nat (12 - i) \<Longrightarrow>
     \<exists>c'. projectionLoop body i c [] ! k = body (i + int k) c'"
proof (induction k arbitrary: i c)
  case 0
  then show ?case by (auto simp: projectionLoop_step)
next
  case (Suc k)
  then have lt: "i < 12" by linarith
  have "\<exists>c'. projectionLoop body (i + 1) (cashBalance (body i c)) [] ! k
      = body (i + 1 + int k) c'"
    using Suc.prems by (intro Suc.IH) linarith+
  moreover have "i + 1 + int k = i + int (Suc k)"
    by simp
  ultimately show ?case
    using lt by (simp add: projectionLoop_step del: of_nat_Suc)
qed





lemma generateProjections_nth:
  assumes "i < 12"
  shows "\<exists>c. generateProjections now projects employees workLogs termStart settings ! i
     = monthRecord now projects employees workLogs termStart settings (int i) c"
  using projectionLoop_nth [of 0 i "monthRecord now projects employees workLogs termStart settings"
      "initialCashBalance settings"] assms
  by (simp add: generateProjections_def)

lemma monthRecord_independent:
  "(monthRecord now projects employees workLogs termStart settings j c)\<lparr>cashBalance := x\<rparr>
   = (monthRecord now projects employees workLogs termStart settings j c')\<lparr>cashBalance := x\<rparr>"
  by (simp add: monthRecord_def Let_def)

lemma generateProjections_fields:
  assumes "i < 12"
  shows "(generateProjections now projects employees workLogs termStart settings ! i)
           \<lparr>cashBalance := 0\<rparr>
         = (monthRecord now projects employees workLogs termStart settings (int i) 0)
           \<lparr>cashBalance := 0\<rparr>"
proof -
  obtain c where "generateProjections now projects employees workLogs termStart settings ! i
     = monthRecord now projects employees workLogs termStart settings (int i) c"
    using generateProjections_nth [OF assms] by blast
  then show ?thesis
    by (simp only: monthRecord_independent [where c = c and c' = 0 and x = 0])
qed



lemmas projection_eval = forEachSum_def laborCost_def paidLaborCost_def currentMonthStart_def
  stockPart_def confirmedPart_def potentialPart_def flowStartCash_def flowEndCash_def
  stockCash_def addProjectCashIn_def plusAssign_def toDouble_zero itemDate_def itemOccurs_def sgaPart_def taxRepaymentPart_def
  investmentPart_def financialInPart_def getPaymentDate_def setDate_def





section \<open>Balance continuity\<close>






section \<open>Labor is paid one month in arrears\<close>

lemma paidLaborCost_laborCost:
  "paidLaborCost now projects employees workLogs year month
     = laborCost now projects employees workLogs (mkDate year (month - 1) 1)"
  by (simp add: paidLaborCost_def laborCost_def Let_def)


text \<open>
  C4. In \<^verbatim>\<open>generateProjections\<close> the labor cost in the outflow of month \<open>i\<close> (the field
  \<open>cost\<close> of record \<open>i\<close>) is exactly the labor cost of the month before, month \<open>i - 1\<close>
  of the term, as the loop computes it for that month (\<open>laborCost\<close>): summed over all
  projects, the actual cost if that month starts strictly before the first day of the
  current calendar month, and the planned cost otherwise. This holds for every index below
  12, so for every \<open>i \<ge> 1\<close>; for \<open>i = 0\<close> the month before is the last month before the term.
\<close>

theorem C4_cash_arrears:
  assumes "rs = generateProjections now projects employees workLogs termStart settings"
    and "i < 12"
    and "prev = mkDate (getFullYear termStart) (getMonth termStart + int i - 1) 1"
  shows "cost (rs ! i) = laborCost now projects employees workLogs prev
    \<and> laborCost now projects employees workLogs prev
        = (if dateLt prev (currentMonthStart now)
           then sum_list (map (\<lambda>p. getProjectActualCost now p employees workLogs
                                     (getFullYear prev) (getMonth prev)) projects)
           else sum_list (map (\<lambda>p. getProjectMonthlyCost p employees
                                     (getFullYear prev) (getMonth prev)) projects))"
proof -
  obtain c where r: "rs ! i = monthRecord now projects employees workLogs termStart settings (int i) c"
    using generateProjections_nth [OF assms(2)] assms(1) by blast
  let ?K = "getFullYear termStart * 12 + (getMonth termStart + int i)"
  have "cost (rs ! i) = paidLaborCost now projects employees workLogs (?K div 12) (?K mod 12)"
    by (simp add: r monthRecord_def Let_def mkDate_first)
  also have "\<dots> = laborCost now projects employees workLogs (mkDate (?K div 12) (?K mod 12 - 1) 1)"
    by (rule paidLaborCost_laborCost)
  also have "mkDate (?K div 12) (?K mod 12 - 1) 1 = prev"
    unfolding assms(3) mkDate_first
    by (simp add: algebra_simps)
  finally have a: "cost (rs ! i) = laborCost now projects employees workLogs prev" .
  have b: "laborCost now projects employees workLogs prev
        = (if dateLt prev (currentMonthStart now)
           then sum_list (map (\<lambda>p. getProjectActualCost now p employees workLogs
                                     (getFullYear prev) (getMonth prev)) projects)
           else sum_list (map (\<lambda>p. getProjectMonthlyCost p employees
                                     (getFullYear prev) (getMonth prev)) projects))"
    by (simp add: laborCost_def Let_def forEachSum_sum_list)
  from a b show ?thesis by simp
qed



text \<open>
  With the clock in March 2025: February pays the actual cost of January (the two work
  logs of known employees, 190,000) and May pays the planned cost of April (300,000).
\<close>

theorem C4_cash_arrears_witness:
  "cost (generateProjections exNow [exProject] exEmployees exWorkLogs exTermStart exSettings ! 2)
     = 190000
   \<and> cost (generateProjections exNow [exProject] exEmployees exWorkLogs exTermStart exSettings ! 5)
     = 300000"
proof -
  let ?rs = "generateProjections exNow [exProject] exEmployees exWorkLogs exTermStart exSettings"
  let ?jan = "\<lparr>getFullYear = 2025, getMonth = 0, getDate = 1, getMillis = 0\<rparr>"
  let ?apr = "\<lparr>getFullYear = 2025, getMonth = 3, getDate = 1, getMillis = 0\<rparr>"
  have jan: "?jan = mkDate (getFullYear exTermStart) (getMonth exTermStart + int 2 - 1) 1"
    and apr: "?apr = mkDate (getFullYear exTermStart) (getMonth exTermStart + int 5 - 1) 1"
    by (simp_all add: exTermStart_def date_eval)
  have "cost (?rs ! 2) = laborCost exNow [exProject] exEmployees exWorkLogs ?jan"
    using C4_cash_arrears [OF refl _ jan] by simp
  moreover have "laborCost exNow [exProject] exEmployees exWorkLogs ?jan = 190000"
    by (simp add: exProject_def exEmployees_def exWorkLogs_def exNow_def
        projection_eval cost_eval date_eval)
  moreover have "cost (?rs ! 5) = laborCost exNow [exProject] exEmployees exWorkLogs ?apr"
    using C4_cash_arrears [OF refl _ apr] by simp
  moreover have "laborCost exNow [exProject] exEmployees exWorkLogs ?apr = 300000"
    by (simp add: exProject_def exEmployees_def exNow_def
        projection_eval cost_eval date_eval)
  ultimately show ?thesis
    by simp
qed

section \<open>The revenue fields of a projection record\<close>

lemma generateProjections_revenue:
  assumes "i < 12" and "d = mkDate (getFullYear termStart) (getMonth termStart + int i) 1"
  shows "revenue (generateProjections now projects employees workLogs termStart settings ! i)
       = forEachSum (\<lambda>p. getMonthlyRevenue p d) projects"
    and "confirmedRevenue (generateProjections now projects employees workLogs termStart settings ! i)
       = forEachSum (\<lambda>p. confirmedPart p (getMonthlyRevenue p d)) projects"
    and "potentialRevenue (generateProjections now projects employees workLogs termStart settings ! i)
       = forEachSum (\<lambda>p. potentialPart p (getMonthlyRevenue p d)) projects"
    and "stockRevenue (generateProjections now projects employees workLogs termStart settings ! i)
       = forEachSum (\<lambda>p. stockPart now p (getFullYear d) (getMonth d) (getMonthlyRevenue p d))
           projects"
    and "flowRevenue (generateProjections now projects employees workLogs termStart settings ! i)
       = forEachSum (\<lambda>p. getMonthlyRevenue p d
                            - stockPart now p (getFullYear d) (getMonth d) (getMonthlyRevenue p d))
           projects"
    and "cashIn (generateProjections now projects employees workLogs termStart settings ! i)
       = real_of_int \<lfloor>toDouble (foldl (addProjectCashIn (getFullYear d) (getMonth d)) 0 projects
                                   * toDouble (11 / 10))\<rfloor>"
proof -
  obtain c where r: "generateProjections now projects employees workLogs termStart settings ! i
     = monthRecord now projects employees workLogs termStart settings (int i) c"
    using generateProjections_nth [OF assms(1)] by blast
  show "revenue (generateProjections now projects employees workLogs termStart settings ! i)
       = forEachSum (\<lambda>p. getMonthlyRevenue p d) projects"
    and "confirmedRevenue (generateProjections now projects employees workLogs termStart settings ! i)
       = forEachSum (\<lambda>p. confirmedPart p (getMonthlyRevenue p d)) projects"
    and "potentialRevenue (generateProjections now projects employees workLogs termStart settings ! i)
       = forEachSum (\<lambda>p. potentialPart p (getMonthlyRevenue p d)) projects"
    and "stockRevenue (generateProjections now projects employees workLogs termStart settings ! i)
       = forEachSum (\<lambda>p. stockPart now p (getFullYear d) (getMonth d) (getMonthlyRevenue p d))
           projects"
    and "flowRevenue (generateProjections now projects employees workLogs termStart settings ! i)
       = forEachSum (\<lambda>p. getMonthlyRevenue p d
                            - stockPart now p (getFullYear d) (getMonth d) (getMonthlyRevenue p d))
           projects"
    and "cashIn (generateProjections now projects employees workLogs termStart settings ! i)
       = real_of_int \<lfloor>toDouble (foldl (addProjectCashIn (getFullYear d) (getMonth d)) 0 projects
                                   * toDouble (11 / 10))\<rfloor>"
    unfolding r assms(2) by (simp_all add: monthRecord_def Let_def)
qed

lemma stock_flow_sum:
  assumes "i < 12"
  shows "stockRevenue (generateProjections now projects employees workLogs termStart settings ! i)
       + flowRevenue (generateProjections now projects employees workLogs termStart settings ! i)
       = revenue (generateProjections now projects employees workLogs termStart settings ! i)"
  unfolding generateProjections_revenue [OF assms refl] forEachSum_sum_list
  by (induction projects) simp_all


section \<open>The stock share of the revenue\<close>

text \<open>
  C7 says that the stock share of every project is at most the revenue recognised for the
  project in the month, so that in every record \<open>stockRevenue \<le> revenue\<close> and
  \<open>flowRevenue \<ge> 0\<close>. The sum \<open>stockRevenue + flowRevenue = revenue\<close> always holds
  (lemma \<open>stock_flow_sum\<close>), and the source caps the share (the line under the comment
  ``Cap stock part to actual revenue''), but the branch for a project with both Flow and
  Stock then overwrites the capped share with \<open>stockAmount\<close>. For the seed project with
  an empty stock start date, \<^verbatim>\<open>getMonthlyRevenue\<close> books no stock revenue, while that branch
  parses the empty date as the clock and books the full stock amount: in July 2025, with
  the clock in March 2025, the record has revenue 0, stock revenue 50,000 and flow revenue
  -50,000.
\<close>

theorem C7_stock_share_exceeds_revenue:
  "revenue (generateProjections exNow [hybridNoStockDate] exEmployees exWorkLogs exTermStart
              exSettings ! 7) = 0
   \<and> stockRevenue (generateProjections exNow [hybridNoStockDate] exEmployees exWorkLogs
                     exTermStart exSettings ! 7) = 50000
   \<and> flowRevenue (generateProjections exNow [hybridNoStockDate] exEmployees exWorkLogs
                    exTermStart exSettings ! 7) = - 50000"
proof -
  let ?jul = "\<lparr>getFullYear = 2025, getMonth = 6, getDate = 1, getMillis = 0\<rparr>"
  have d: "?jul = mkDate (getFullYear exTermStart) (getMonth exTermStart + int 7) 1"
    by (simp add: exTermStart_def date_eval)
  have lt: "(7::nat) < 12" by simp
  have rv: "getMonthlyRevenue hybridNoStockDate ?jul = 0"
    by (simp add: hybridNoStockDate_def exProject_def exBilling_def model_eval date_eval)
  have sp: "stockPart exNow hybridNoStockDate 2025 6 0 = 50000"
    by (simp add: hybridNoStockDate_def exProject_def exNow_def stockPart_def orElse_def
        parseLocalDate_def date_eval)
  show ?thesis
    unfolding generateProjections_revenue [OF lt d]
    by (simp add: forEachSum_def rv sp)
qed


section \<open>Lost and archived projects\<close>
















section \<open>The daily path against the monthly path\<close>



























lemma month_index_normal:
  assumes "0 \<le> m" "m < 12"
  shows "(y * 12 + m) div 12 = y" "(y * 12 + m) mod 12 = (m::int)"
  using assms by simp_all






























end
